theory Spec2Isabelle
  imports Complex_Main "HOL-Library.Multiset"
begin

section \<open>Conventions of the embedding\<close>

text \<open>
  The memory subsystem of the repository (\<^verbatim>\<open>src/memory/*.ts\<close>, \<^verbatim>\<open>src/utils/similarity.ts\<close>)
  is embedded function by function.

  \<^item> A JavaScript \<^verbatim>\<open>number\<close> that holds a weight, an importance, a score or a threshold is a
    \<^typ>\<open>real\<close>: arithmetic is exact. The embedding is faithful wherever the program
    produces neither \<^verbatim>\<open>NaN\<close> nor an infinity; for the relevance formula this is the case when no
    entry was accessed later than the clock reading it is compared with.
    Counts (\<^verbatim>\<open>accessCount\<close>, \<^verbatim>\<open>limit\<close>, \<^verbatim>\<open>maxSize\<close>) are natural numbers, time stamps are
    integers (milliseconds).
  \<^item> \<^verbatim>\<open>Date.now()\<close> and \<^verbatim>\<open>generateId()\<close> read the environment: every function that calls
    them takes the value read as an explicit argument.
  \<^item> A JavaScript \<^verbatim>\<open>Map\<close> is an association list in insertion order with distinct keys;
    \<^verbatim>\<open>set\<close> on a present key replaces the value in place, on a new key it appends.
  \<^item> Methods that mutate \<^verbatim>\<open>this\<close> take the object and return the updated object.
  \<^item> Strings are lists of characters and the text is taken to be ASCII: beyond ASCII the
    source's \<^verbatim>\<open>toLowerCase\<close> and its class \<^verbatim>\<open>\s\<close> cover more than the model's.
\<close>

subsection \<open>JavaScript Map\<close>

primrec Map_set :: "'k \<Rightarrow> 'v \<Rightarrow> ('k \<times> 'v) list \<Rightarrow> ('k \<times> 'v) list" where
  "Map_set k v [] = [(k, v)]"
| "Map_set k v (p # ps) = (if fst p = k then (k, v) # ps else p # Map_set k v ps)"

definition Map_delete :: "'k \<Rightarrow> ('k \<times> 'v) list \<Rightarrow> ('k \<times> 'v) list" where
  "Map_delete k ps = filter (\<lambda>p. fst p \<noteq> k) ps"

definition Map_has :: "'k \<Rightarrow> ('k \<times> 'v) list \<Rightarrow> bool" where
  "Map_has k ps = (map_of ps k \<noteq> None)"

section \<open>The associative graph (\<^verbatim>\<open>HebbianNetwork\<close>)\<close>

record HebbianNetwork =
  associations :: "(string \<times> (string \<times> real) list) list"
  decayRate :: real
  maxStrength :: real

definition new_HebbianNetwork :: "real \<Rightarrow> real \<Rightarrow> HebbianNetwork" where
  "new_HebbianNetwork dr ms = \<lparr>associations = [], decayRate = dr, maxStrength = ms\<rparr>"

text \<open>The constructor's default arguments: \<^verbatim>\<open>decayRate = 0.05\<close>, \<^verbatim>\<open>maxStrength = 1.0\<close>.\<close>

definition default_HebbianNetwork :: HebbianNetwork where
  "default_HebbianNetwork = new_HebbianNetwork (5 / 100) 1"

definition ensureNode ::
  "string \<Rightarrow> (string \<times> (string \<times> real) list) list \<Rightarrow> (string \<times> (string \<times> real) list) list" where
  "ensureNode i m = (if Map_has i m then m else Map_set i [] m)"

text \<open>
  \<^verbatim>\<open>this.associations.get(a)?.get(b)\<close>: the stored weight, if both the node and the link exist.
\<close>

definition link :: "(string \<times> (string \<times> real) list) list \<Rightarrow> string \<Rightarrow> string \<Rightarrow> real option" where
  "link m a b = (case map_of m a of None \<Rightarrow> None | Some links \<Rightarrow> map_of links b)"

text \<open>\<^verbatim>\<open>x || 0\<close> on an optional number: an absent value (and the number 0) reads as 0.\<close>

definition or0 :: "real option \<Rightarrow> real" where
  "or0 x = (case x of None \<Rightarrow> 0 | Some w \<Rightarrow> w)"

text \<open>
  \<^verbatim>\<open>this.associations.get(a)!.set(b, w)\<close>: the inner map of node \<open>a\<close> is updated in place.
  On a missing node the source would raise a TypeError; \<open>strengthen\<close> calls it only after
  \<open>ensureNode\<close>, so that branch is never taken there.
\<close>

definition set_link ::
  "string \<Rightarrow> string \<Rightarrow> real \<Rightarrow> (string \<times> (string \<times> real) list) list
    \<Rightarrow> (string \<times> (string \<times> real) list) list" where
  "set_link a b w m =
     (case map_of m a of None \<Rightarrow> m | Some links \<Rightarrow> Map_set a (Map_set b w links) m)"

definition strengthen :: "HebbianNetwork \<Rightarrow> string \<Rightarrow> string \<Rightarrow> real \<Rightarrow> HebbianNetwork" where
  "strengthen g idA idB amount =
     (let m = ensureNode idB (ensureNode idA (associations g));
          currentAB = or0 (link m idA idB);
          currentBA = or0 (link m idB idA);
          m1 = set_link idA idB (min (maxStrength g) (currentAB + amount)) m;
          m2 = set_link idB idA (min (maxStrength g) (currentBA + amount)) m1
      in g\<lparr>associations := m2\<rparr>)"

definition getStrength :: "HebbianNetwork \<Rightarrow> string \<Rightarrow> string \<Rightarrow> real" where
  "getStrength g idA idB = or0 (link (associations g) idA idB)"

text \<open>
  \<^verbatim>\<open>getStrongestAssociations\<close>: the links of a node, sorted by weight descending (the sort of
  \<^verbatim>\<open>Array.prototype.sort\<close> is stable), cut to \<open>limit\<close>.
\<close>

definition getStrongestAssociations :: "HebbianNetwork \<Rightarrow> string \<Rightarrow> nat \<Rightarrow> (string \<times> real) list" where
  "getStrongestAssociations g i limit =
     (case map_of (associations g) i of
        None \<Rightarrow> []
      | Some assocs \<Rightarrow> take limit (sort_key (\<lambda>p. - snd p) assocs))"

primrec decay_links :: "real \<Rightarrow> (string \<times> real) list \<Rightarrow> (string \<times> real) list" where
  "decay_links r [] = []"
| "decay_links r (p # ps) =
     (let newStrength = snd p * (1 - r)
      in if newStrength < 1 / 100 then decay_links r ps
         else (fst p, newStrength) # decay_links r ps)"

definition decay :: "HebbianNetwork \<Rightarrow> HebbianNetwork" where
  "decay g = g\<lparr>associations := map (\<lambda>(n, links). (n, decay_links (decayRate g) links)) (associations g)\<rparr>"

text \<open>\<^verbatim>\<open>coActivate\<close>: the inner loop over \<open>j > i\<close>, then the outer loop over \<open>i\<close>.\<close>

primrec coActivate_from :: "HebbianNetwork \<Rightarrow> string \<Rightarrow> string list \<Rightarrow> HebbianNetwork" where
  "coActivate_from g x [] = g"
| "coActivate_from g x (y # ys) = coActivate_from (strengthen g x y (1 / 10)) x ys"

primrec coActivate :: "HebbianNetwork \<Rightarrow> string list \<Rightarrow> HebbianNetwork" where
  "coActivate g [] = g"
| "coActivate g (x # xs) = coActivate (coActivate_from g x xs) xs"

definition removeNode :: "HebbianNetwork \<Rightarrow> string \<Rightarrow> HebbianNetwork" where
  "removeNode g i =
     g\<lparr>associations := map (\<lambda>(n, links). (n, Map_delete i links)) (Map_delete i (associations g))\<rparr>"

definition network_size :: "HebbianNetwork \<Rightarrow> nat" where
  "network_size g = length (associations g)"

subsection \<open>Sequences of graph operations\<close>

datatype graph_op =
    Strengthen string string real
  | CoActivate "string list"
  | Decay
  | RemoveNode string

fun apply_graph_op :: "HebbianNetwork \<Rightarrow> graph_op \<Rightarrow> HebbianNetwork" where
  "apply_graph_op g (Strengthen a b amount) = strengthen g a b amount"
| "apply_graph_op g (CoActivate ids) = coActivate g ids"
| "apply_graph_op g Decay = decay g"
| "apply_graph_op g (RemoveNode i) = removeNode g i"

definition run_graph_ops :: "HebbianNetwork \<Rightarrow> graph_op list \<Rightarrow> HebbianNetwork" where
  "run_graph_ops g ops = foldl apply_graph_op g ops"

section \<open>Entries (\<^verbatim>\<open>types.ts\<close>)\<close>

datatype MemoryTier = Tier_fleeting | Tier_short_term | Tier_long_term

text \<open>
  The record \<^verbatim>\<open>MemoryEntry\<close>. The field \<^verbatim>\<open>id\<close> is \<open>entry_id\<close> here and the field
  \<^verbatim>\<open>associations\<close> is \<open>entry_associations\<close>; the tier of an entry is its field \<^verbatim>\<open>source\<close>.
\<close>

record MemoryEntry =
  entry_id :: string
  content :: string
  importance :: real
  accessCount :: nat
  createdAt :: int
  lastAccessed :: int
  tags :: "string list"
  entry_associations :: "(string \<times> real) list"
  source :: MemoryTier

definition createMemoryEntry ::
  "string \<Rightarrow> string \<Rightarrow> real \<Rightarrow> string list \<Rightarrow> MemoryTier \<Rightarrow> int \<Rightarrow> MemoryEntry" where
  "createMemoryEntry i c imp tgs src now =
     \<lparr>entry_id = i, content = c, importance = max 0 (min 1 imp), accessCount = 0,
      createdAt = now, lastAccessed = now, tags = tgs, entry_associations = [], source = src\<rparr>"

text \<open>
  \<^verbatim>\<open>calculateRelevance\<close>. \<^verbatim>\<open>Math.pow(x, 0.5)\<close> is the square root for the non-negative \<open>x\<close>
  that arise when \<open>lastAccessed \<le> now\<close>.
\<close>

definition calculateRelevance :: "MemoryEntry \<Rightarrow> int \<Rightarrow> real" where
  "calculateRelevance entry now =
     (let daysSinceAccess = real_of_int (now - lastAccessed entry) / (1000 * 60 * 60 * 24)
      in importance entry * sqrt (real (accessCount entry) / (1 + daysSinceAccess)))"

text \<open>\<^verbatim>\<open>entry.accessCount++; entry.lastAccessed = Date.now()\<close>, the bookkeeping of a read.\<close>

definition bump :: "int \<Rightarrow> MemoryEntry \<Rightarrow> MemoryEntry" where
  "bump now entry = entry\<lparr>accessCount := accessCount entry + 1, lastAccessed := now\<rparr>"

section \<open>Lexical similarity (\<^verbatim>\<open>utils/similarity.ts\<close>)\<close>

definition isWordChar :: "char \<Rightarrow> bool" where
  "isWordChar c =
     (let n = (of_char c :: nat)
      in (48 \<le> n \<and> n \<le> 57) \<or> (65 \<le> n \<and> n \<le> 90) \<or> n = 95 \<or> (97 \<le> n \<and> n \<le> 122))"

definition isSpaceChar :: "char \<Rightarrow> bool" where
  "isSpaceChar c = (let n = (of_char c :: nat) in n = 32 \<or> (9 \<le> n \<and> n \<le> 13))"

definition toLowerCase_char :: "char \<Rightarrow> char" where
  "toLowerCase_char c =
     (let n = (of_char c :: nat) in if 65 \<le> n \<and> n \<le> 90 then char_of (n + 32) else c)"

definition toLowerCase :: "string \<Rightarrow> string" where
  "toLowerCase s = map toLowerCase_char s"

text \<open>\<^verbatim>\<open>.replace(/[^\w\s]/g, ' ')\<close>\<close>

definition replace_punctuation :: "string \<Rightarrow> string" where
  "replace_punctuation s = map (\<lambda>c. if isWordChar c \<or> isSpaceChar c then c else CHR '' '') s"

text \<open>
  \<^verbatim>\<open>.split(/\s+/).filter(t => t.length > 0)\<close>: \<open>pieces\<close> cuts at every white-space character;
  once the empty pieces are dropped this is the list of maximal runs without white space, as
  with the source's split at runs of white space.
\<close>

primrec pieces :: "string \<Rightarrow> string list" where
  "pieces [] = [[]]"
| "pieces (c # cs) =
     (if isSpaceChar c then [] # pieces cs
      else (case pieces cs of [] \<Rightarrow> [[c]] | p # ps \<Rightarrow> (c # p) # ps))"

text \<open>\<^verbatim>\<open>new Set(xs)\<close>: the elements in order of first occurrence.\<close>

definition Set_of :: "'a list \<Rightarrow> 'a list" where
  "Set_of xs = foldl (\<lambda>s x. if x \<in> set s then s else s @ [x]) [] xs"

definition tokenize :: "string \<Rightarrow> string list" where
  "tokenize text = Set_of (filter (\<lambda>t. length t > 0) (pieces (replace_punctuation (toLowerCase text))))"

definition jaccardSimilarity :: "string \<Rightarrow> string \<Rightarrow> real" where
  "jaccardSimilarity a b =
     (let setA = tokenize a; setB = tokenize b
      in if length setA = 0 \<and> length setB = 0 then 1
         else if length setA = 0 \<or> length setB = 0 then 0
         else (let intersection = length (filter (\<lambda>token. token \<in> set setB) setA);
                   union = length setA + length setB - intersection
               in if union = 0 then 0 else real intersection / real union))"

text \<open>\<^verbatim>\<open>s.includes(q)\<close>: \<open>q\<close> occurs in \<open>s\<close> as a contiguous substring.\<close>

primrec str_includes :: "string \<Rightarrow> string \<Rightarrow> bool" where
  "str_includes [] q = (q = [])"
| "str_includes (c # cs) q = (take (length q) (c # cs) = q \<or> str_includes cs q)"

section \<open>The fleeting store (\<^verbatim>\<open>FleetingMemory\<close>)\<close>

record FleetingMemory =
  fl_store :: "(string \<times> MemoryEntry) list"

definition new_FleetingMemory :: FleetingMemory where
  "new_FleetingMemory = \<lparr>fl_store = []\<rparr>"

definition fl_add ::
  "FleetingMemory \<Rightarrow> string \<Rightarrow> string \<Rightarrow> real \<Rightarrow> string list \<Rightarrow> int \<Rightarrow> MemoryEntry \<times> FleetingMemory" where
  "fl_add fm newId c imp tgs now =
     (let entry = createMemoryEntry newId c imp tgs Tier_fleeting now
      in (entry, fm\<lparr>fl_store := Map_set newId entry (fl_store fm)\<rparr>))"

definition fl_get :: "FleetingMemory \<Rightarrow> string \<Rightarrow> int \<Rightarrow> MemoryEntry option \<times> FleetingMemory" where
  "fl_get fm i now =
     (case map_of (fl_store fm) i of
        None \<Rightarrow> (None, fm)
      | Some entry \<Rightarrow> (Some (bump now entry), fm\<lparr>fl_store := Map_set i (bump now entry) (fl_store fm)\<rparr>))"

definition fl_search :: "FleetingMemory \<Rightarrow> string \<Rightarrow> MemoryEntry list" where
  "fl_search fm query =
     (let queryLower = toLowerCase query
      in filter (\<lambda>entry. str_includes (toLowerCase (content entry)) queryLower \<or>
                         list_ex (\<lambda>t. str_includes (toLowerCase t) queryLower) (tags entry))
           (map snd (fl_store fm)))"

definition fl_remove :: "FleetingMemory \<Rightarrow> string \<Rightarrow> bool \<times> FleetingMemory" where
  "fl_remove fm i = (Map_has i (fl_store fm), fm\<lparr>fl_store := Map_delete i (fl_store fm)\<rparr>)"

definition fl_clear :: "FleetingMemory \<Rightarrow> FleetingMemory" where
  "fl_clear fm = fm\<lparr>fl_store := []\<rparr>"

definition fl_size :: "FleetingMemory \<Rightarrow> nat" where
  "fl_size fm = length (fl_store fm)"

section \<open>The working-set store (\<^verbatim>\<open>ShortTermMemory\<close>)\<close>

record ShortTermMemory =
  st_entries :: "MemoryEntry list"
  maxSize :: nat
  compressionThreshold :: real

definition new_ShortTermMemory :: "nat \<Rightarrow> real \<Rightarrow> ShortTermMemory" where
  "new_ShortTermMemory ms ct = \<lparr>st_entries = [], maxSize = ms, compressionThreshold = ct\<rparr>"

text \<open>
  \<^verbatim>\<open>evict\<close>: the comparator \<^verbatim>\<open>(a, b) => relevance(b) - relevance(a)\<close> sorts by relevance
  descending; the sort is stable; \<^verbatim>\<open>slice(0, maxSize)\<close> keeps the front.
\<close>

definition evict :: "ShortTermMemory \<Rightarrow> int \<Rightarrow> ShortTermMemory" where
  "evict st now =
     st\<lparr>st_entries := take (maxSize st) (sort_key (\<lambda>e. - calculateRelevance e now) (st_entries st))\<rparr>"

text \<open>
  \<^verbatim>\<open>add\<close> reads the clock twice: \<open>now\<close> in \<^verbatim>\<open>createMemoryEntry\<close>, \<open>now_evict\<close> in \<^verbatim>\<open>evict\<close>.
\<close>

definition st_add ::
  "ShortTermMemory \<Rightarrow> string \<Rightarrow> string \<Rightarrow> real \<Rightarrow> string list \<Rightarrow> int \<Rightarrow> int
     \<Rightarrow> MemoryEntry \<times> ShortTermMemory" where
  "st_add st newId c imp tgs now now_evict =
     (let entry = createMemoryEntry newId c imp tgs Tier_short_term now;
          st1 = st\<lparr>st_entries := st_entries st @ [entry]\<rparr>
      in (entry, if length (st_entries st1) > maxSize st1 then evict st1 now_evict else st1))"

primrec update_first :: "('a \<Rightarrow> bool) \<Rightarrow> ('a \<Rightarrow> 'a) \<Rightarrow> 'a list \<Rightarrow> 'a list" where
  "update_first P f [] = []"
| "update_first P f (x # xs) = (if P x then f x # xs else x # update_first P f xs)"

definition st_get :: "ShortTermMemory \<Rightarrow> string \<Rightarrow> int \<Rightarrow> MemoryEntry option \<times> ShortTermMemory" where
  "st_get st i now =
     (case find (\<lambda>e. entry_id e = i) (st_entries st) of
        None \<Rightarrow> (None, st)
      | Some entry \<Rightarrow>
          (Some (bump now entry),
           st\<lparr>st_entries := update_first (\<lambda>e. entry_id e = i) (bump now) (st_entries st)\<rparr>))"

definition st_search :: "ShortTermMemory \<Rightarrow> string \<Rightarrow> nat \<Rightarrow> MemoryEntry list" where
  "st_search st query limit =
     (let scored = map (\<lambda>entry. (entry, jaccardSimilarity query (content entry))) (st_entries st)
      in map fst (take limit (sort_key (\<lambda>s. - snd s) (filter (\<lambda>s. snd s > 0) scored))))"

text \<open>
  \<^verbatim>\<open>compress\<close>. The quotient \<^verbatim>\<open>length / maxSize\<close> with \<open>maxSize = 0\<close> is an infinity or \<^verbatim>\<open>NaN\<close>
  in the source, and then the comparison \<^verbatim>\<open><\<close> is false.
\<close>

definition promotable :: "MemoryEntry \<Rightarrow> bool" where
  "promotable e = (accessCount e \<ge> 3 \<or> importance e \<ge> 7 / 10)"

definition compress :: "ShortTermMemory \<Rightarrow> int \<Rightarrow> MemoryEntry list \<times> ShortTermMemory" where
  "compress st now =
     (if maxSize st \<noteq> 0 \<and>
         real (length (st_entries st)) / real (maxSize st) < compressionThreshold st
      then ([], st)
      else (let sorted = sort_key (\<lambda>e. - calculateRelevance e now) (st_entries st);
                promotionCandidates = filter promotable sorted;
                promotedIds = map entry_id promotionCandidates
            in (promotionCandidates,
                st\<lparr>st_entries := filter (\<lambda>e. entry_id e \<notin> set promotedIds) (st_entries st)\<rparr>)))"

definition st_clear :: "ShortTermMemory \<Rightarrow> ShortTermMemory" where
  "st_clear st = st\<lparr>st_entries := []\<rparr>"

definition st_size :: "ShortTermMemory \<Rightarrow> nat" where
  "st_size st = length (st_entries st)"

definition st_remove :: "ShortTermMemory \<Rightarrow> string \<Rightarrow> bool \<times> ShortTermMemory" where
  "st_remove st i =
     (case find (\<lambda>e. entry_id e = i) (st_entries st) of
        None \<Rightarrow> (False, st)
      | Some entry \<Rightarrow> (True, st\<lparr>st_entries := remove1 entry (st_entries st)\<rparr>))"

section \<open>Serialisation of the graph (\<^verbatim>\<open>toJSON\<close>, \<^verbatim>\<open>fromJSON\<close>)\<close>

text \<open>
  A plain JavaScript object is the list of its own enumerable properties. The assignment
  \<^verbatim>\<open>result[id] = value\<close> on an object created by the literal \<^verbatim>\<open>{}\<close> creates or overwrites
  an own property, with one exception: for the key \<^verbatim>\<open>__proto__\<close> the assignment runs the
  accessor inherited from \<^verbatim>\<open>Object.prototype\<close>, which replaces the prototype of \<^verbatim>\<open>result\<close>
  (the value assigned in \<^verbatim>\<open>toJSON\<close> is always an object) and creates no own property.
  \<^verbatim>\<open>Object.entries\<close> and \<^verbatim>\<open>JSON.stringify\<close> read own properties only.
  \<^verbatim>\<open>Object.fromEntries\<close> and \<^verbatim>\<open>new Map(...)\<close> define every key they are given.
  The order in which an object enumerates integer-like keys is not modelled.
\<close>

definition obj_assign :: "string \<Rightarrow> 'v \<Rightarrow> (string \<times> 'v) list \<Rightarrow> (string \<times> 'v) list" where
  "obj_assign key v obj = (if key = ''__proto__'' then obj else Map_set key v obj)"

definition from_entries :: "('k \<times> 'v) list \<Rightarrow> ('k \<times> 'v) list" where
  "from_entries kvs = foldl (\<lambda>m kv. Map_set (fst kv) (snd kv) m) [] kvs"

definition toJSON :: "HebbianNetwork \<Rightarrow> (string \<times> (string \<times> real) list) list" where
  "toJSON g = foldl (\<lambda>result node. obj_assign (fst node) (from_entries (snd node)) result) []
                (associations g)"

definition fromJSON ::
  "(string \<times> (string \<times> real) list) list \<Rightarrow> real \<Rightarrow> real \<Rightarrow> HebbianNetwork" where
  "fromJSON data dr ms =
     (new_HebbianNetwork dr ms)
       \<lparr>associations := foldl (\<lambda>m node. Map_set (fst node) (from_entries (snd node)) m) [] data\<rparr>"

text \<open>\<^verbatim>\<open>fromJSON(data)\<close> with the two optional arguments left out.\<close>

definition fromJSON_default :: "(string \<times> (string \<times> real) list) list \<Rightarrow> HebbianNetwork" where
  "fromJSON_default data = fromJSON data (5 / 100) 1"

section \<open>The long-term store (\<^verbatim>\<open>LongTermMemory\<close>)\<close>

record LongTermMemory =
  lt_entries :: "(string \<times> MemoryEntry) list"
  storagePath :: string
  pruneThreshold :: real
  maxEntries :: nat
  network :: HebbianNetwork
  dirty :: bool

text \<open>The constructor with the defaults of \<^verbatim>\<open>DEFAULT_CONFIG\<close> and a fresh default graph.\<close>

definition new_LongTermMemory :: "string \<Rightarrow> LongTermMemory" where
  "new_LongTermMemory path =
     \<lparr>lt_entries = [], storagePath = path, pruneThreshold = 1 / 100, maxEntries = 1000,
      network = default_HebbianNetwork, dirty = False\<rparr>"

record StorageFormat =
  sf_entries :: "MemoryEntry list"
  sf_associations :: "(string \<times> (string \<times> real) list) list option"
  sf_version :: nat

subsection \<open>Parsed JSON and what \<^verbatim>\<open>load\<close> reads from it\<close>

text \<open>
  The value that \<^verbatim>\<open>JSON.parse\<close> returns. The keys of a \<open>JObject\<close> are distinct, as in a parsed
  object.
\<close>

datatype json =
    JNull
  | JBool bool
  | JNumber real
  | JString string
  | JArray "json list"
  | JObject "(string \<times> json) list"

text \<open>
  The property read \<^verbatim>\<open>v.name\<close> for the names that \<^verbatim>\<open>load\<close> reads (\<^verbatim>\<open>entries\<close>,
  \<^verbatim>\<open>associations\<close>, \<^verbatim>\<open>id\<close>) and the field names of an entry: the own property of an object,
  \<open>None\<close> (\<^verbatim>\<open>undefined\<close>) otherwise. On \<^verbatim>\<open>null\<close> the read raises a TypeError; on an array
  \<^verbatim>\<open>.entries\<close> is a method. In \<open>load_parsed\<close> both end like \<^verbatim>\<open>undefined\<close>: the loop raises a
  TypeError, since neither is iterable.
\<close>

definition field :: "json \<Rightarrow> string \<Rightarrow> json option" where
  "field v name = (case v of JObject fs \<Rightarrow> map_of fs name | _ \<Rightarrow> None)"

text \<open>\<^verbatim>\<open>if (v)\<close>: the truthiness of a parsed value.\<close>

definition is_truthy :: "json \<Rightarrow> bool" where
  "is_truthy v =
     (case v of JNull \<Rightarrow> False | JBool b \<Rightarrow> b | JNumber r \<Rightarrow> r \<noteq> 0 | JString s \<Rightarrow> s \<noteq> []
      | JArray xs \<Rightarrow> True | JObject fs \<Rightarrow> True)"

text \<open>
  \<^verbatim>\<open>for (const x of v)\<close>: the elements of an array, the characters of a string; anything else
  is not iterable (\<open>None\<close>: a TypeError).
\<close>

definition iterable_elements :: "json \<Rightarrow> json list option" where
  "iterable_elements v =
     (case v of JArray xs \<Rightarrow> Some xs | JString s \<Rightarrow> Some (map (\<lambda>c. JString [c]) s) | _ \<Rightarrow> None)"

text \<open>The decimal numeral of a natural number, the key of an array index.\<close>

fun show_nat :: "nat \<Rightarrow> string" where
  "show_nat n =
     (if n < 10 then [char_of (48 + n)] else show_nat (n div 10) @ [char_of (48 + n mod 10)])"

text \<open>
  \<^verbatim>\<open>Object.entries(v)\<close>: the properties of an object, the indexed elements of an array, the
  indexed characters of a string, nothing for a number or a boolean; on \<^verbatim>\<open>null\<close> a TypeError
  (\<open>None\<close>). An object lists integer-like keys first; that order is not modelled.
\<close>

definition object_entries :: "json \<Rightarrow> (string \<times> json) list option" where
  "object_entries v =
     (case v of
        JNull \<Rightarrow> None
      | JObject fs \<Rightarrow> Some fs
      | JArray xs \<Rightarrow> Some (zip (map show_nat [0..<length xs]) xs)
      | JString s \<Rightarrow> Some (zip (map show_nat [0..<length s]) (map (\<lambda>c. JString [c]) s))
      | _ \<Rightarrow> Some [])"

text \<open>
  Reading a parsed value at a declared type. In this embedding counts are natural numbers and
  time stamps are integers, so a number is read as such only when it is one.
\<close>

definition as_string :: "json \<Rightarrow> string option" where
  "as_string v = (case v of JString s \<Rightarrow> Some s | _ \<Rightarrow> None)"

definition as_number :: "json \<Rightarrow> real option" where
  "as_number v = (case v of JNumber r \<Rightarrow> Some r | _ \<Rightarrow> None)"

definition as_int :: "json \<Rightarrow> int option" where
  "as_int v = (case v of JNumber r \<Rightarrow> (if r = real_of_int \<lfloor>r\<rfloor> then Some \<lfloor>r\<rfloor> else None) | _ \<Rightarrow> None)"

definition as_nat :: "json \<Rightarrow> nat option" where
  "as_nat v =
     (case v of
        JNumber r \<Rightarrow> (if 0 \<le> r \<and> r = real_of_int \<lfloor>r\<rfloor> then Some (nat \<lfloor>r\<rfloor>) else None)
      | _ \<Rightarrow> None)"

definition as_strings :: "json \<Rightarrow> string list option" where
  "as_strings v = (case v of JArray xs \<Rightarrow> those (map as_string xs) | _ \<Rightarrow> None)"

definition as_weights :: "(string \<times> json) list \<Rightarrow> (string \<times> real) list option" where
  "as_weights kvs = those (map (\<lambda>kv. map_option (Pair (fst kv)) (as_number (snd kv))) kvs)"

definition as_weight_object :: "json \<Rightarrow> (string \<times> real) list option" where
  "as_weight_object v = (case v of JObject fs \<Rightarrow> as_weights fs | _ \<Rightarrow> None)"

definition as_tier :: "json \<Rightarrow> MemoryTier option" where
  "as_tier v =
     (case v of
        JString s \<Rightarrow>
          (if s = ''fleeting'' then Some Tier_fleeting
           else if s = ''short_term'' then Some Tier_short_term
           else if s = ''long_term'' then Some Tier_long_term
           else None)
      | _ \<Rightarrow> None)"

text \<open>
  \<open>as_entry v\<close>: the entry that \<open>v\<close> is, when \<open>v\<close> is an object with the nine fields of
  \<^verbatim>\<open>MemoryEntry\<close> at their declared types (further fields are not read by any operation).
\<close>

definition as_entry :: "json \<Rightarrow> MemoryEntry option" where
  "as_entry v =
     Option.bind (Option.bind (field v ''id'') as_string) (\<lambda>i.
     Option.bind (Option.bind (field v ''content'') as_string) (\<lambda>c.
     Option.bind (Option.bind (field v ''importance'') as_number) (\<lambda>imp.
     Option.bind (Option.bind (field v ''accessCount'') as_nat) (\<lambda>n.
     Option.bind (Option.bind (field v ''createdAt'') as_int) (\<lambda>created.
     Option.bind (Option.bind (field v ''lastAccessed'') as_int) (\<lambda>accessed.
     Option.bind (Option.bind (field v ''tags'') as_strings) (\<lambda>tgs.
     Option.bind (Option.bind (field v ''associations'') as_weight_object) (\<lambda>assocs.
     Option.bind (Option.bind (field v ''source'') as_tier) (\<lambda>src.
       Some \<lparr>entry_id = i, content = c, importance = imp, accessCount = n, createdAt = created,
             lastAccessed = accessed, tags = tgs, entry_associations = assocs, source = src\<rparr>)))))))))"

text \<open>
  How a loop of \<^verbatim>\<open>load\<close> ends: it ran to its end with state \<open>s\<close> (\<open>Completed s\<close>), it raised a
  TypeError when the state was \<open>s\<close> (\<open>Threw s\<close>), or it stored a value that is not of the
  declared type of the container and raised nothing (\<open>StoredJunk\<close>).
\<close>

datatype 'a attempt = Completed 'a | Threw 'a | StoredJunk

text \<open>
  The loop \<^verbatim>\<open>for (const entry of stored.entries) this.entries.set(entry.id, entry)\<close>. On
  \<^verbatim>\<open>null\<close> the read \<^verbatim>\<open>entry.id\<close> raises a TypeError. Any other element is stored: an entry
  under its id, anything else as it is, under whatever its \<^verbatim>\<open>id\<close> is (\<^verbatim>\<open>undefined\<close> for the
  number 5).
\<close>

primrec load_elements :: "json list \<Rightarrow> (string \<times> MemoryEntry) list \<Rightarrow> (string \<times> MemoryEntry) list attempt" where
  "load_elements [] acc = Completed acc"
| "load_elements (x # xs) acc =
     (if x = JNull then Threw acc
      else (case as_entry x of
              None \<Rightarrow> StoredJunk
            | Some entry \<Rightarrow> load_elements xs (Map_set (entry_id entry) entry acc)))"

text \<open>
  The loop of \<^verbatim>\<open>fromJSON\<close> over \<^verbatim>\<open>Object.entries(data)\<close>. \<^verbatim>\<open>Object.entries(links)\<close> raises a
  TypeError when \<open>links\<close> is \<^verbatim>\<open>null\<close>; the graph under construction is then dropped, also when
  a link table before it held values that are not numbers.
\<close>

primrec load_nodes ::
  "(string \<times> json) list \<Rightarrow> (string \<times> (string \<times> real) list) list
     \<Rightarrow> (string \<times> (string \<times> real) list) list attempt" where
  "load_nodes [] m = Completed m"
| "load_nodes (node # nodes) m =
     (case object_entries (snd node) of
        None \<Rightarrow> Threw m
      | Some kvs \<Rightarrow>
          (case as_weights kvs of
             Some links \<Rightarrow> load_nodes nodes (Map_set (fst node) (from_entries links) m)
           | None \<Rightarrow> (case load_nodes nodes m of Threw m' \<Rightarrow> Threw m' | _ \<Rightarrow> StoredJunk)))"

text \<open>
  The state after a load: a store of this embedding, or a store that holds a value outside the
  declared types, which the records of this embedding cannot hold and about which nothing is
  stated.
\<close>

datatype 'a loaded = Typed 'a | IllTyped

text \<open>
  The storage file as \<^verbatim>\<open>load\<close> meets it:
  \<^item> \<open>NoFile\<close>: \<^verbatim>\<open>readFile\<close> rejects (the file is missing or unreadable);
  \<^item> \<open>NotJSON\<close>: \<^verbatim>\<open>JSON.parse\<close> throws;
  \<^item> \<open>Parsed v\<close>: the text parses to the value \<open>v\<close>, whatever its shape;
  \<^item> \<open>Document d\<close>: the text that \<^verbatim>\<open>save\<close> writes for the document \<open>d\<close> of the declared type
    \<^verbatim>\<open>StorageFormat\<close>. It parses to \<open>encode_document d\<close>, and \<open>lt_load\<close> gives the same on both.
\<close>

datatype file_content = NoFile | NotJSON | Parsed json | Document StorageFormat

datatype io_error = WriteFailed

definition load_entries :: "MemoryEntry list \<Rightarrow> (string \<times> MemoryEntry) list" where
  "load_entries es = foldl (\<lambda>m entry. Map_set (entry_id entry) entry m) [] es"

text \<open>
  The body of \<^verbatim>\<open>try\<close> after \<^verbatim>\<open>JSON.parse\<close> returned \<open>stored\<close>: \<^verbatim>\<open>this.entries.clear()\<close>, the
  loop over \<^verbatim>\<open>stored.entries\<close>, then, if \<^verbatim>\<open>stored.associations\<close> is truthy, the assignment of
  \<^verbatim>\<open>fromJSON(stored.associations)\<close> to \<^verbatim>\<open>this.network\<close>. A TypeError ends it where it is raised;
  the \<^verbatim>\<open>catch\<close> block is empty.
\<close>

definition load_parsed :: "LongTermMemory \<Rightarrow> json \<Rightarrow> LongTermMemory loaded" where
  "load_parsed lt stored =
     (case Option.bind (field stored ''entries'') iterable_elements of
        None \<Rightarrow> Typed (lt\<lparr>lt_entries := []\<rparr>)
      | Some xs \<Rightarrow>
          (case load_elements xs [] of
             StoredJunk \<Rightarrow> IllTyped
           | Threw es \<Rightarrow> Typed (lt\<lparr>lt_entries := es\<rparr>)
           | Completed es \<Rightarrow>
               (case field stored ''associations'' of
                  None \<Rightarrow> Typed (lt\<lparr>lt_entries := es\<rparr>)
                | Some a \<Rightarrow>
                    (if is_truthy a
                     then (case object_entries a of
                             None \<Rightarrow> Typed (lt\<lparr>lt_entries := es\<rparr>)
                           | Some nodes \<Rightarrow>
                               (case load_nodes nodes [] of
                                  Completed m \<Rightarrow>
                                    Typed (lt\<lparr>lt_entries := es,
                                              network := (new_HebbianNetwork (5 / 100) 1)\<lparr>associations := m\<rparr>\<rparr>)
                                | Threw m \<Rightarrow> Typed (lt\<lparr>lt_entries := es\<rparr>)
                                | StoredJunk \<Rightarrow> IllTyped))
                     else Typed (lt\<lparr>lt_entries := es\<rparr>)))))"

text \<open>
  \<^verbatim>\<open>load\<close>: the first component is what the caller of the \<^verbatim>\<open>async\<close> function observes
  (\<open>Inr ()\<close> for a promise that resolves, \<open>Inl\<close> for one that rejects). Everything after the
  test of \<^verbatim>\<open>storagePath\<close> is inside \<^verbatim>\<open>try\<close>, and the \<^verbatim>\<open>catch\<close> block, with the comment
  "File doesn't exist yet, start fresh", is empty.
\<close>

definition lt_load :: "LongTermMemory \<Rightarrow> file_content \<Rightarrow> (io_error + unit) \<times> LongTermMemory loaded" where
  "lt_load lt f =
     (if storagePath lt = [] then (Inr (), Typed lt)
      else (case f of
              NoFile \<Rightarrow> (Inr (), Typed lt)
            | NotJSON \<Rightarrow> (Inr (), Typed lt)
            | Parsed stored \<Rightarrow> (Inr (), load_parsed lt stored)
            | Document stored \<Rightarrow>
                (Inr (),
                 Typed (lt\<lparr>lt_entries := load_entries (sf_entries stored),
                           network := (case sf_associations stored of
                                         None \<Rightarrow> network lt
                                       | Some a \<Rightarrow> fromJSON_default a)\<rparr>))))"

text \<open>
  What \<^verbatim>\<open>JSON.stringify\<close> followed by \<^verbatim>\<open>JSON.parse\<close> makes of an entry and of a document.
\<close>

definition tier_name :: "MemoryTier \<Rightarrow> string" where
  "tier_name t =
     (case t of Tier_fleeting \<Rightarrow> ''fleeting'' | Tier_short_term \<Rightarrow> ''short_term''
      | Tier_long_term \<Rightarrow> ''long_term'')"

definition encode_weights :: "(string \<times> real) list \<Rightarrow> json" where
  "encode_weights ws = JObject (map (\<lambda>kw. (fst kw, JNumber (snd kw))) ws)"

definition encode_entry :: "MemoryEntry \<Rightarrow> json" where
  "encode_entry e =
     JObject [(''id'', JString (entry_id e)), (''content'', JString (content e)),
              (''importance'', JNumber (importance e)),
              (''accessCount'', JNumber (real (accessCount e))),
              (''createdAt'', JNumber (real_of_int (createdAt e))),
              (''lastAccessed'', JNumber (real_of_int (lastAccessed e))),
              (''tags'', JArray (map JString (tags e))),
              (''associations'', encode_weights (entry_associations e)),
              (''source'', JString (tier_name (source e)))]"

definition encode_document :: "StorageFormat \<Rightarrow> json" where
  "encode_document d =
     JObject ((''entries'', JArray (map encode_entry (sf_entries d))) #
              (case sf_associations d of
                 None \<Rightarrow> []
               | Some a \<Rightarrow> [(''associations'', JObject (map (\<lambda>node. (fst node, encode_weights (snd node))) a))]) @
              [(''version'', JNumber (real (sf_version d)))])"

text \<open>
  \<^verbatim>\<open>save\<close>: \<open>can_write\<close> tells whether \<^verbatim>\<open>mkdir\<close> and \<^verbatim>\<open>writeFile\<close> succeed; their failure
  propagates to the caller. The result is the outcome, the store and the file.
\<close>

definition lt_save ::
  "LongTermMemory \<Rightarrow> file_content \<Rightarrow> bool \<Rightarrow> (io_error + unit) \<times> LongTermMemory \<times> file_content" where
  "lt_save lt f can_write =
     (if storagePath lt = [] \<or> \<not> dirty lt then (Inr (), lt, f)
      else (let stored = \<lparr>sf_entries = map snd (lt_entries lt),
                          sf_associations = Some (toJSON (network lt)),
                          sf_version = 1\<rparr>
            in if can_write then (Inr (), lt\<lparr>dirty := False\<rparr>, Document stored)
               else (Inl WriteFailed, lt, f)))"

definition lt_add ::
  "LongTermMemory \<Rightarrow> string \<Rightarrow> string \<Rightarrow> real \<Rightarrow> string list \<Rightarrow> int \<Rightarrow> MemoryEntry \<times> LongTermMemory" where
  "lt_add lt newId c imp tgs now =
     (let entry = createMemoryEntry newId c imp tgs Tier_long_term now
      in (entry, lt\<lparr>lt_entries := Map_set newId entry (lt_entries lt), dirty := True\<rparr>))"

definition lt_promote :: "LongTermMemory \<Rightarrow> MemoryEntry \<Rightarrow> MemoryEntry \<times> LongTermMemory" where
  "lt_promote lt entry =
     (let promoted = entry\<lparr>source := Tier_long_term\<rparr>
      in (promoted, lt\<lparr>lt_entries := Map_set (entry_id promoted) promoted (lt_entries lt), dirty := True\<rparr>))"

definition lt_get :: "LongTermMemory \<Rightarrow> string \<Rightarrow> int \<Rightarrow> MemoryEntry option \<times> LongTermMemory" where
  "lt_get lt i now =
     (case map_of (lt_entries lt) i of
        None \<Rightarrow> (None, lt)
      | Some entry \<Rightarrow>
          (Some (bump now entry),
           lt\<lparr>lt_entries := Map_set i (bump now entry) (lt_entries lt), dirty := True\<rparr>))"

text \<open>
  \<^verbatim>\<open>search\<close>: the entries returned are mutated in place (\<open>bump\<close>), so the store holds the
  bumped entries under the same keys and the result lists the bumped entries.
\<close>

definition lt_search ::
  "LongTermMemory \<Rightarrow> string \<Rightarrow> nat \<Rightarrow> int \<Rightarrow> MemoryEntry list \<times> LongTermMemory" where
  "lt_search lt query limit now =
     (let scored = map (\<lambda>p. (p, jaccardSimilarity query (content (snd p)))) (lt_entries lt);
          hits = map fst (take limit (sort_key (\<lambda>s. - snd s) (filter (\<lambda>s. snd s > 0) scored)));
          hitKeys = map fst hits
      in (map (\<lambda>p. bump now (snd p)) hits,
          lt\<lparr>lt_entries := map (\<lambda>p. if fst p \<in> set hitKeys then (fst p, bump now (snd p)) else p)
                             (lt_entries lt),
             dirty := (dirty lt \<or> hits \<noteq> [])\<rparr>))"

text \<open>
  \<^verbatim>\<open>searchWithAssociations\<close>: the state of the two nested loops is the pair of \<^verbatim>\<open>resultIds\<close>
  and \<^verbatim>\<open>associated\<close>.
\<close>

definition add_associated ::
  "LongTermMemory \<Rightarrow> string list \<times> MemoryEntry list \<Rightarrow> string \<Rightarrow> string list \<times> MemoryEntry list" where
  "add_associated lt acc i =
     (if i \<in> set (fst acc) then acc
      else (case map_of (lt_entries lt) i of
              None \<Rightarrow> acc
            | Some assocEntry \<Rightarrow> (fst acc @ [i], snd acc @ [assocEntry])))"

definition lt_searchWithAssociations ::
  "LongTermMemory \<Rightarrow> string \<Rightarrow> nat \<Rightarrow> int \<Rightarrow> MemoryEntry list \<times> LongTermMemory" where
  "lt_searchWithAssociations lt query limit now =
     (let (directResults, lt1) = lt_search lt query limit now;
          acc = foldl (\<lambda>acc entry.
                         foldl (add_associated lt1) acc
                           (map fst (getStrongestAssociations (network lt1) (entry_id entry) 3)))
                  (map entry_id directResults, []) directResults
      in (take limit (directResults @ snd acc), lt1))"

text \<open>
  \<^verbatim>\<open>prune\<close>: one pass over the entries; the state of the loop is the graph and the counter
  \<^verbatim>\<open>pruned\<close>, the result also lists the entries that stay.
\<close>

primrec prune_loop ::
  "real \<Rightarrow> int \<Rightarrow> (string \<times> MemoryEntry) list \<Rightarrow> HebbianNetwork \<Rightarrow> nat
     \<Rightarrow> (string \<times> MemoryEntry) list \<times> HebbianNetwork \<times> nat" where
  "prune_loop thr now [] g pruned = ([], g, pruned)"
| "prune_loop thr now (p # ps) g pruned =
     (let relevance = calculateRelevance (snd p) now
      in if relevance < thr \<and> accessCount (snd p) > 0
         then prune_loop thr now ps (removeNode g (fst p)) (pruned + 1)
         else (let (kept, g', n) = prune_loop thr now ps g pruned in (p # kept, g', n)))"

definition lt_prune :: "LongTermMemory \<Rightarrow> int \<Rightarrow> nat \<times> LongTermMemory" where
  "lt_prune lt now =
     (let (kept, g, pruned) = prune_loop (pruneThreshold lt) now (lt_entries lt) (network lt) 0
      in (pruned, lt\<lparr>lt_entries := kept, network := g, dirty := (dirty lt \<or> pruned > 0)\<rparr>))"

definition lt_remove :: "LongTermMemory \<Rightarrow> string \<Rightarrow> bool \<times> LongTermMemory" where
  "lt_remove lt i =
     (if Map_has i (lt_entries lt)
      then (True, lt\<lparr>lt_entries := Map_delete i (lt_entries lt),
                     network := removeNode (network lt) i, dirty := True\<rparr>)
      else (False, lt))"

definition lt_size :: "LongTermMemory \<Rightarrow> nat" where
  "lt_size lt = length (lt_entries lt)"

section \<open>The memory manager (\<^verbatim>\<open>MemoryManager\<close>)\<close>

record MemoryManager =
  fleeting :: FleetingMemory
  shortTerm :: ShortTermMemory
  longTerm :: LongTermMemory
  recentlyRecalled :: "string list"

text \<open>
  The constructor: the working set takes \<^verbatim>\<open>shortTermMaxSize\<close> and the default compression
  threshold 0.8, the long-term store takes \<^verbatim>\<open>storagePath\<close>.
\<close>

definition new_MemoryManager :: "string \<Rightarrow> nat \<Rightarrow> MemoryManager" where
  "new_MemoryManager path shortTermMaxSize =
     \<lparr>fleeting = new_FleetingMemory,
      shortTerm = new_ShortTermMemory shortTermMaxSize (8 / 10),
      longTerm = new_LongTermMemory path,
      recentlyRecalled = []\<rparr>"

definition initialize ::
  "MemoryManager \<Rightarrow> file_content \<Rightarrow> (io_error + unit) \<times> MemoryManager loaded" where
  "initialize m f =
     (let (r, s) = lt_load (longTerm m) f
      in (r, case s of Typed lt \<Rightarrow> Typed (m\<lparr>longTerm := lt\<rparr>) | IllTyped \<Rightarrow> IllTyped))"

definition remember ::
  "MemoryManager \<Rightarrow> string \<Rightarrow> string \<Rightarrow> real \<Rightarrow> string list \<Rightarrow> int \<Rightarrow> int
     \<Rightarrow> MemoryEntry \<times> MemoryManager" where
  "remember m newId c imp tgs now now_evict =
     (if imp \<ge> 7 / 10
      then (let (entry, lt) = lt_add (longTerm m) newId c imp tgs now in (entry, m\<lparr>longTerm := lt\<rparr>))
      else if imp \<ge> 4 / 10
      then (let (entry, st) = st_add (shortTerm m) newId c imp tgs now now_evict
            in (entry, m\<lparr>shortTerm := st\<rparr>))
      else (let (entry, fm) = fl_add (fleeting m) newId c imp tgs now in (entry, m\<lparr>fleeting := fm\<rparr>)))"

text \<open>
  The closure \<^verbatim>\<open>addResults\<close> of \<^verbatim>\<open>recall\<close>: its state is the set \<^verbatim>\<open>seen\<close> and the array
  \<^verbatim>\<open>merged\<close> of entries with their scores.
\<close>

definition addResults ::
  "string \<Rightarrow> MemoryEntry list \<Rightarrow> real \<Rightarrow> string list \<times> (MemoryEntry \<times> real) list
     \<Rightarrow> string list \<times> (MemoryEntry \<times> real) list" where
  "addResults query entries tierBoost acc =
     foldl (\<lambda>acc entry.
              if entry_id entry \<in> set (fst acc) then acc
              else (let similarity = jaccardSimilarity query (content entry)
                    in (fst acc @ [entry_id entry], snd acc @ [(entry, similarity + tierBoost)])))
       acc entries"

definition recall :: "MemoryManager \<Rightarrow> string \<Rightarrow> nat \<Rightarrow> int \<Rightarrow> MemoryEntry list \<times> MemoryManager" where
  "recall m query limit now =
     (let (longTermResults, lt1) = lt_searchWithAssociations (longTerm m) query limit now;
          shortTermResults = st_search (shortTerm m) query limit;
          fleetingResults = fl_search (fleeting m) query;
          acc = addResults query fleetingResults 0
                  (addResults query shortTermResults (1 / 10)
                     (addResults query longTermResults (2 / 10) ([], [])));
          merged = sort_key (\<lambda>s. - snd s) (snd acc);
          results = map fst (take limit merged);
          recalledIds = map entry_id results;
          lt2 = (if length recalledIds > 1
                 then lt1\<lparr>network := coActivate (network lt1) recalledIds\<rparr> else lt1)
      in (results, m\<lparr>longTerm := lt2, recentlyRecalled := recalledIds\<rparr>))"

text \<open>
  \<^verbatim>\<open>consolidate\<close> reads the clock in \<^verbatim>\<open>compress\<close> (\<open>now\<close>) and again in \<^verbatim>\<open>prune\<close>
  (\<open>now_prune\<close>). A failure of \<^verbatim>\<open>save\<close> rejects the promise after the stores were changed.
\<close>

definition promote_all :: "LongTermMemory \<Rightarrow> MemoryEntry list \<Rightarrow> LongTermMemory" where
  "promote_all lt promoted = foldl (\<lambda>lt entry. snd (lt_promote lt entry)) lt promoted"

definition consolidate ::
  "MemoryManager \<Rightarrow> int \<Rightarrow> int \<Rightarrow> file_content \<Rightarrow> bool
     \<Rightarrow> (io_error + nat) \<times> MemoryManager \<times> file_content" where
  "consolidate m now now_prune f can_write =
     (let (promoted, st1) = compress (shortTerm m) now;
          lt1 = promote_all (longTerm m) promoted;
          lt2 = lt1\<lparr>network := decay (network lt1)\<rparr>;
          (pruned, lt3) = lt_prune lt2 now_prune;
          fm1 = fl_clear (fleeting m);
          (r, lt4, f') = lt_save lt3 f can_write
      in ((case r of Inl e \<Rightarrow> Inl e | Inr u \<Rightarrow> Inr (length promoted)),
          m\<lparr>fleeting := fm1, shortTerm := st1, longTerm := lt4\<rparr>, f'))"

definition save :: "MemoryManager \<Rightarrow> file_content \<Rightarrow> bool \<Rightarrow> (io_error + unit) \<times> MemoryManager \<times> file_content" where
  "save m f can_write = (let (r, lt, f') = lt_save (longTerm m) f can_write in (r, m\<lparr>longTerm := lt\<rparr>, f'))"

section \<open>Representation invariant and symmetry of the graph\<close>

text \<open>
  \<open>wf_links\<close>: keys are distinct at both levels, as in the nested \<^verbatim>\<open>Map\<close> of the source.
  \<open>symmetric_links\<close>: both directions of every link hold the same stored weight.
\<close>

definition wf_links :: "(string \<times> (string \<times> real) list) list \<Rightarrow> bool" where
  "wf_links m = (distinct (map fst m) \<and> list_all (\<lambda>p. distinct (map fst (snd p))) m)"

definition symmetric_links :: "(string \<times> (string \<times> real) list) list \<Rightarrow> bool" where
  "symmetric_links m = (\<forall>a b. link m a b = link m b a)"

section \<open>Auxiliary notions used in the statements\<close>

text \<open>The test of \<^verbatim>\<open>prune\<close>: the entry was read at least once and its relevance is below the threshold.\<close>

definition prunable :: "real \<Rightarrow> int \<Rightarrow> MemoryEntry \<Rightarrow> bool" where
  "prunable thr now e = (accessCount e > 0 \<and> calculateRelevance e now < thr)"

text \<open>
  A sequence of \<^verbatim>\<open>add\<close> calls on the working set: each call comes with its arguments, the id
  drawn for it and the two clock readings.
\<close>

type_synonym add_call = "string \<times> string \<times> real \<times> string list \<times> int \<times> int"

definition st_add_call :: "ShortTermMemory \<Rightarrow> add_call \<Rightarrow> ShortTermMemory" where
  "st_add_call st call =
     (case call of (newId, c, imp, tgs, now, now_evict) \<Rightarrow> snd (st_add st newId c imp tgs now now_evict))"

definition run_adds :: "ShortTermMemory \<Rightarrow> add_call list \<Rightarrow> ShortTermMemory" where
  "run_adds st calls = foldl st_add_call st calls"

subsection \<open>Concrete states\<close>

text \<open>A working set with \<open>maxSize = 5\<close> after five \<^verbatim>\<open>add\<close> calls.\<close>

definition five_entries :: ShortTermMemory where
  "five_entries = run_adds (new_ShortTermMemory 5 (8 / 10))
     [(''id1'', ''entry 1'', 1 / 2, [], 0, 0), (''id2'', ''entry 2'', 1 / 2, [], 1, 1),
      (''id3'', ''entry 3'', 1 / 2, [], 2, 2), (''id4'', ''entry 4'', 1 / 2, [], 3, 3),
      (''id5'', ''entry 5'', 1 / 2, [], 4, 4)]"

text \<open>
  A long-term store with an entry of importance 0.01 that was read once at time 0, and an entry
  of importance 0 that was never read (as in the test "prune removes low-relevance entries").
\<close>

definition aged_entry :: MemoryEntry where
  "aged_entry = (createMemoryEntry ''a'' ''old memory'' (1 / 100) [] Tier_long_term 0)\<lparr>accessCount := 1\<rparr>"

definition unread_entry :: MemoryEntry where
  "unread_entry = createMemoryEntry ''b'' ''new memory'' 0 [] Tier_long_term 0"

definition prune_example :: LongTermMemory where
  "prune_example =
     (new_LongTermMemory ''/tmp/m.json'')\<lparr>lt_entries := [(''a'', aged_entry), (''b'', unread_entry)]\<rparr>"

section \<open>The ranking of \<^verbatim>\<open>recall\<close> in the words of the specification\<close>

text \<open>
  \<open>first_occurrences key xs\<close> keeps, of the elements of \<open>xs\<close> with the same key, the first.
\<close>

fun first_occurrences :: "('a \<Rightarrow> 'k) \<Rightarrow> 'a list \<Rightarrow> 'a list" where
  "first_occurrences key [] = []"
| "first_occurrences key (x # xs) = x # first_occurrences key (filter (\<lambda>y. key y \<noteq> key x) xs)"

text \<open>
  The specification's recipe: the results of the three tiers in the order long-term,
  working set, fleeting, each entry with the boost of its tier (0.2, 0.1, 0); merged by id, the
  first occurrence wins; each survivor scored with the Jaccard similarity of the query and its
  content plus its boost; sorted by score descending; cut to \<open>limit\<close>. The result lists the
  entries with their scores.
\<close>

definition recall_ranked ::
  "string \<Rightarrow> nat \<Rightarrow> MemoryEntry list \<Rightarrow> MemoryEntry list \<Rightarrow> MemoryEntry list
     \<Rightarrow> (MemoryEntry \<times> real) list" where
  "recall_ranked query limit longTermResults shortTermResults fleetingResults =
     (let candidates = map (\<lambda>e. (e, 2 / 10)) longTermResults @
                       map (\<lambda>e. (e, 1 / 10)) shortTermResults @
                       map (\<lambda>e. (e, 0)) fleetingResults;
          survivors = first_occurrences (\<lambda>c. entry_id (fst c)) candidates;
          scored = map (\<lambda>c. (fst c, jaccardSimilarity query (content (fst c)) + snd c)) survivors
      in take limit (sort_key (\<lambda>s. - snd s) scored))"

text \<open>One step of \<^verbatim>\<open>addResults\<close> on an entry paired with its boost.\<close>

definition merge_step ::
  "string \<Rightarrow> string list \<times> (MemoryEntry \<times> real) list \<Rightarrow> MemoryEntry \<times> real
     \<Rightarrow> string list \<times> (MemoryEntry \<times> real) list" where
  "merge_step query acc c =
     (if entry_id (fst c) \<in> set (fst acc) then acc
      else (fst acc @ [entry_id (fst c)],
            snd acc @ [(fst c, jaccardSimilarity query (content (fst c)) + snd c)]))"

text \<open>The node ids listed in the \<^verbatim>\<open>associations\<close> of a stored document.\<close>

definition document_nodes :: "file_content \<Rightarrow> string list" where
  "document_nodes f =
     (case f of
        Document d \<Rightarrow> (case sf_associations d of None \<Rightarrow> [] | Some a \<Rightarrow> map fst a)
      | _ \<Rightarrow> [])"

text \<open>
  A manager after three \<^verbatim>\<open>remember\<close> calls, one per tier (the state of the test "recall
  searches across all tiers").
\<close>

definition three_tiers :: MemoryManager where
  "three_tiers =
     snd (remember
       (snd (remember
         (snd (remember (new_MemoryManager ''/tmp/m.json'' 10)
                 ''L1'' ''long term cache patterns'' (9 / 10) [] 1 1))
         ''S1'' ''short term cache usage'' (5 / 10) [] 2 2))
       ''F1'' ''fleeting cache idea'' (2 / 10) [] 3 3)"

text \<open>
  The same without the long-term entry: nothing was ever written to the long-term store.
\<close>

definition two_tiers :: MemoryManager where
  "two_tiers =
     snd (remember
       (snd (remember (new_MemoryManager ''/tmp/m.json'' 10)
               ''S1'' ''short term cache usage'' (5 / 10) [] 2 2))
       ''F1'' ''fleeting cache idea'' (2 / 10) [] 3 3)"

section \<open>The consolidation protocol in the words of the specification\<close>

text \<open>
  \<open>compression_due\<close>: the working set has reached its compression threshold, so that
  \<^verbatim>\<open>compress\<close> does not return early.
\<close>

definition compression_due :: "ShortTermMemory \<Rightarrow> bool" where
  "compression_due st =
     (maxSize st = 0 \<or> real (length (st_entries st)) / real (maxSize st) \<ge> compressionThreshold st)"

text \<open>
  The five steps of the protocol, each as a function on the manager: (1) \<^verbatim>\<open>compress\<close> and
  promote what it returns, (2) decay the graph, (3) prune, (4) clear the fleeting store,
  (5) persist (\<open>save\<close>); \<open>consolidate_steps\<close> runs them in this order and returns the number
  of entries promoted in step 1.
\<close>

definition step_promote :: "MemoryManager \<Rightarrow> int \<Rightarrow> nat \<times> MemoryManager" where
  "step_promote m now =
     (let (promoted, st1) = compress (shortTerm m) now
      in (length promoted, m\<lparr>shortTerm := st1, longTerm := promote_all (longTerm m) promoted\<rparr>))"

definition step_decay :: "MemoryManager \<Rightarrow> MemoryManager" where
  "step_decay m = m\<lparr>longTerm := (longTerm m)\<lparr>network := decay (network (longTerm m))\<rparr>\<rparr>"

definition step_prune :: "MemoryManager \<Rightarrow> int \<Rightarrow> MemoryManager" where
  "step_prune m now = m\<lparr>longTerm := snd (lt_prune (longTerm m) now)\<rparr>"

definition step_clear :: "MemoryManager \<Rightarrow> MemoryManager" where
  "step_clear m = m\<lparr>fleeting := fl_clear (fleeting m)\<rparr>"

definition consolidate_steps ::
  "MemoryManager \<Rightarrow> int \<Rightarrow> int \<Rightarrow> file_content \<Rightarrow> bool
     \<Rightarrow> (io_error + nat) \<times> MemoryManager \<times> file_content" where
  "consolidate_steps m now now_prune f can_write =
     (let (n, m1) = step_promote m now;
          m2 = step_decay m1;
          m3 = step_prune m2 now_prune;
          m4 = step_clear m3;
          (r, m5, f') = save m4 f can_write
      in ((case r of Inl e \<Rightarrow> Inl e | Inr u \<Rightarrow> Inr n), m5, f'))"

text \<open>
  Two managers with one working-set entry \<open>W1\<close> of importance 0.5 that was read with
  \<^verbatim>\<open>get\<close>: \<open>idle_manager\<close> with \<open>shortTermMaxSize = 10\<close> and three reads, \<open>worthy_manager\<close>
  with \<open>shortTermMaxSize = 1\<close> and four reads. \<open>read_entry n\<close> is the entry after \<open>n\<close> reads.
\<close>

definition read_W1 :: "MemoryManager \<Rightarrow> MemoryManager" where
  "read_W1 m = m\<lparr>shortTerm := snd (st_get (shortTerm m) ''W1'' 0)\<rparr>"

definition idle_manager :: MemoryManager where
  "idle_manager =
     read_W1 (read_W1 (read_W1
       (snd (remember (new_MemoryManager ''/tmp/m.json'' 10) ''W1'' ''memory 0'' (5 / 10) [] 0 0))))"

definition worthy_manager :: MemoryManager where
  "worthy_manager =
     read_W1 (read_W1 (read_W1 (read_W1
       (snd (remember (new_MemoryManager ''/tmp/m.json'' 1) ''W1'' ''memory 0'' (5 / 10) [] 0 0)))))"

definition read_entry :: "nat \<Rightarrow> MemoryEntry" where
  "read_entry n = (createMemoryEntry ''W1'' ''memory 0'' (5 / 10) [] Tier_short_term 0)\<lparr>accessCount := n\<rparr>"

section \<open>Proofs\<close>

subsection \<open>Map operations\<close>

lemma map_of_Map_set: "map_of (Map_set k v ps) = (map_of ps)(k \<mapsto> v)"
  by (induction ps) (auto simp: fun_eq_iff)

lemma map_of_Map_delete: "map_of (Map_delete k ps) = (map_of ps)(k := None)"
  by (induction ps) (auto simp: Map_delete_def fun_eq_iff)

lemma keys_Map_set:
  "map fst (Map_set k v ps) = (if k \<in> set (map fst ps) then map fst ps else map fst ps @ [k])"
  by (induction ps) auto

lemma distinct_Map_set: "distinct (map fst ps) \<Longrightarrow> distinct (map fst (Map_set k v ps))"
  by (simp add: keys_Map_set)

lemma distinct_Map_delete: "distinct (map fst ps) \<Longrightarrow> distinct (map fst (Map_delete k ps))"
  by (simp add: Map_delete_def distinct_map_filter)

subsection \<open>The associative graph\<close>

lemma link_ensureNode: "link (ensureNode i m) a b = link m a b"
  by (auto simp: ensureNode_def link_def Map_has_def map_of_Map_set split: option.splits)

lemma has_ensureNode: "map_of (ensureNode i m) i \<noteq> None"
  by (auto simp: ensureNode_def Map_has_def map_of_Map_set)

lemma has_ensureNode_mono: "map_of m j \<noteq> None \<Longrightarrow> map_of (ensureNode i m) j \<noteq> None"
  by (auto simp: ensureNode_def Map_has_def map_of_Map_set)

lemma link_set_link:
  "map_of m a \<noteq> None \<Longrightarrow>
   link (set_link a b w m) x y = (if x = a \<and> y = b then Some w else link m x y)"
  by (auto simp: set_link_def link_def map_of_Map_set split: option.splits)

lemma has_set_link: "map_of m j \<noteq> None \<Longrightarrow> map_of (set_link a b w m) j \<noteq> None"
  by (auto simp: set_link_def map_of_Map_set split: option.splits)

lemma link_strengthen:
  "link (associations (strengthen g a b amount)) x y =
     (if (x = a \<and> y = b) \<or> (x = b \<and> y = a)
      then Some (min (maxStrength g) (or0 (link (associations g) x y) + amount))
      else link (associations g) x y)"
proof -
  let ?m = "ensureNode b (ensureNode a (associations g))"
  have ha: "map_of ?m a \<noteq> None" by (simp add: has_ensureNode has_ensureNode_mono)
  have hb: "map_of ?m b \<noteq> None" by (simp add: has_ensureNode)
  have l: "link ?m x' y' = link (associations g) x' y'" for x' y'
    by (simp add: link_ensureNode)
  have "link (associations (strengthen g a b amount)) x y =
     (if x = b \<and> y = a then Some (min (maxStrength g) (or0 (link (associations g) b a) + amount))
      else if x = a \<and> y = b then Some (min (maxStrength g) (or0 (link (associations g) a b) + amount))
      else link (associations g) x y)"
    unfolding strengthen_def Let_def
    by (simp add: link_set_link has_set_link ha hb l)
  then show ?thesis by (cases "a = b") auto
qed

lemma map_of_decay_links:
  "distinct (map fst ps) \<Longrightarrow>
   map_of (decay_links r ps) k =
     (case map_of ps k of None \<Rightarrow> None
      | Some s \<Rightarrow> if s * (1 - r) < 1 / 100 then None else Some (s * (1 - r)))"
proof (induction ps)
  case Nil
  then show ?case by simp
next
  case (Cons p ps)
  then have "map_of ps (fst p) = None"
    by (cases p) (auto simp: map_of_eq_None_iff)
  with Cons show ?case
    by (cases p) (auto simp: Let_def split: option.splits)
qed

lemma keys_decay_links: "set (map fst (decay_links r ps)) \<subseteq> set (map fst ps)"
  by (induction ps) (auto simp: Let_def)

lemma distinct_decay_links: "distinct (map fst ps) \<Longrightarrow> distinct (map fst (decay_links r ps))"
proof (induction ps)
  case Nil
  then show ?case by simp
next
  case (Cons p ps)
  then show ?case using keys_decay_links [of r ps] by (auto simp: Let_def)
qed

lemma map_of_map_links:
  "map_of (map (\<lambda>(n, links). (n, f links)) m) a = map_option f (map_of m a)"
  by (induction m) auto

lemma link_decay:
  "wf_links (associations g) \<Longrightarrow>
   link (associations (decay g)) a b =
     (case link (associations g) a b of None \<Rightarrow> None
      | Some s \<Rightarrow> if s * (1 - decayRate g) < 1 / 100 then None else Some (s * (1 - decayRate g)))"
proof -
  assume wf: "wf_links (associations g)"
  have d: "distinct (map fst links)" if "map_of (associations g) a = Some links" for links
    using wf map_of_SomeD [OF that] by (auto simp: wf_links_def list_all_iff)
  show ?thesis
    by (auto simp: decay_def link_def map_of_map_links map_of_decay_links d split: option.splits)
qed

lemma link_removeNode:
  "link (associations (removeNode g i)) a b =
     (if a = i \<or> b = i then None else link (associations g) a b)"
  by (auto simp: removeNode_def link_def map_of_map_links map_of_Map_delete split: option.splits)


lemma set_Map_set_subset: "set (Map_set k v ps) \<subseteq> insert (k, v) (set ps)"
  by (induction ps) auto

lemma wf_links_Map_set:
  "wf_links m \<Longrightarrow> distinct (map fst links) \<Longrightarrow> wf_links (Map_set i links m)"
  using set_Map_set_subset [of i links m]
  by (auto simp: wf_links_def distinct_Map_set list_all_iff)

lemma wf_ensureNode: "wf_links m \<Longrightarrow> wf_links (ensureNode i m)"
  by (simp add: ensureNode_def wf_links_Map_set)

lemma wf_set_link: "wf_links m \<Longrightarrow> wf_links (set_link a b w m)"
proof (cases "map_of m a")
  case None
  assume "wf_links m"
  with None show ?thesis by (simp add: set_link_def)
next
  case (Some links)
  assume wf: "wf_links m"
  from Some have "(a, links) \<in> set m" by (rule map_of_SomeD)
  with wf have "distinct (map fst links)" by (auto simp: wf_links_def list_all_iff)
  then have "distinct (map fst (Map_set b w links))" by (rule distinct_Map_set)
  with wf Some show ?thesis by (simp add: set_link_def wf_links_Map_set)
qed

lemma wf_strengthen: "wf_links (associations g) \<Longrightarrow> wf_links (associations (strengthen g a b amount))"
  by (simp add: strengthen_def Let_def wf_set_link wf_ensureNode)

lemma wf_decay: "wf_links (associations g) \<Longrightarrow> wf_links (associations (decay g))"
  by (auto simp: wf_links_def decay_def list_all_iff distinct_decay_links comp_def case_prod_beta)

lemma wf_removeNode: "wf_links (associations g) \<Longrightarrow> wf_links (associations (removeNode g i))"
  by (auto simp: wf_links_def removeNode_def list_all_iff distinct_Map_delete comp_def case_prod_beta
      Map_delete_def distinct_map_filter)

lemma wf_coActivate_from:
  "wf_links (associations g) \<Longrightarrow> wf_links (associations (coActivate_from g x ys))"
  by (induction ys arbitrary: g) (simp_all add: wf_strengthen)

lemma wf_coActivate: "wf_links (associations g) \<Longrightarrow> wf_links (associations (coActivate g xs))"
  by (induction xs arbitrary: g) (simp_all add: wf_coActivate_from)

lemma sym_strengthen:
  "symmetric_links (associations g) \<Longrightarrow> symmetric_links (associations (strengthen g a b amount))"
  unfolding symmetric_links_def
proof (intro allI)
  fix x y
  assume s: "\<forall>a b. link (associations g) a b = link (associations g) b a"
  have xy: "link (associations g) x y = link (associations g) y x" using s by blast
  have c: "((y = a \<and> x = b) \<or> (y = b \<and> x = a)) = ((x = a \<and> y = b) \<or> (x = b \<and> y = a))"
    by blast
  show "link (associations (strengthen g a b amount)) x y =
        link (associations (strengthen g a b amount)) y x"
    unfolding link_strengthen c xy ..
qed

lemma sym_decay:
  "wf_links (associations g) \<Longrightarrow> symmetric_links (associations g) \<Longrightarrow>
   symmetric_links (associations (decay g))"
  unfolding symmetric_links_def by (simp add: link_decay)

lemma sym_removeNode:
  "symmetric_links (associations g) \<Longrightarrow> symmetric_links (associations (removeNode g i))"
  unfolding symmetric_links_def by (auto simp: link_removeNode)

lemma sym_coActivate_from:
  "symmetric_links (associations g) \<Longrightarrow> symmetric_links (associations (coActivate_from g x ys))"
  by (induction ys arbitrary: g) (simp_all add: sym_strengthen)

lemma sym_coActivate:
  "symmetric_links (associations g) \<Longrightarrow> symmetric_links (associations (coActivate g xs))"
  by (induction xs arbitrary: g) (simp_all add: sym_coActivate_from)

lemma inv_apply_graph_op:
  "wf_links (associations g) \<and> symmetric_links (associations g) \<Longrightarrow>
   wf_links (associations (apply_graph_op g op)) \<and> symmetric_links (associations (apply_graph_op g op))"
  by (cases op)
     (simp_all add: wf_strengthen wf_coActivate wf_decay wf_removeNode
        sym_strengthen sym_coActivate sym_decay sym_removeNode)

lemma inv_run_graph_ops:
  "wf_links (associations g) \<and> symmetric_links (associations g) \<Longrightarrow>
   wf_links (associations (run_graph_ops g ops)) \<and> symmetric_links (associations (run_graph_ops g ops))"
  unfolding run_graph_ops_def
proof (induction ops arbitrary: g)
  case Nil
  then show ?case by simp
next
  case (Cons op ops)
  from Cons.prems have "wf_links (associations (apply_graph_op g op)) \<and>
      symmetric_links (associations (apply_graph_op g op))"
    by (rule inv_apply_graph_op)
  then show ?case using Cons.IH by simp
qed

subsection \<open>Claim C4: the graph stays symmetric\<close>

text \<open>
  C4. Starting from an empty associative graph, after every operation of any finite sequence
  of \<open>strengthen\<close>, \<open>coActivate\<close>, \<open>decay\<close> and \<open>removeNode\<close> calls (that is, after every
  prefix \<open>take n ops\<close> of the sequence), \<open>getStrength a b\<close> and \<open>getStrength b a\<close> agree for
  all ids \<open>a\<close> and \<open>b\<close>.
\<close>

theorem graph_symmetry:
  "getStrength (run_graph_ops (new_HebbianNetwork dr ms) (take n ops)) a b =
   getStrength (run_graph_ops (new_HebbianNetwork dr ms) (take n ops)) b a"
proof -
  have "wf_links (associations (new_HebbianNetwork dr ms)) \<and>
        symmetric_links (associations (new_HebbianNetwork dr ms))"
    by (simp add: new_HebbianNetwork_def wf_links_def symmetric_links_def link_def)
  then have "symmetric_links (associations (run_graph_ops (new_HebbianNetwork dr ms) (take n ops)))"
    using inv_run_graph_ops by blast
  then show ?thesis
    by (simp add: getStrength_def symmetric_links_def)
qed

subsection \<open>Claim C1: tier routing\<close>

text \<open>
  C1. The entry returned by \<open>remember\<close> has tier \<open>long_term\<close> if the importance argument is at
  least 0.7, \<open>short_term\<close> if it is at least 0.4 and below 0.7, and \<open>fleeting\<close> otherwise, whatever
  the state of the manager, the content, the tags, the id drawn and the clock.
\<close>

theorem remember_tier:
  "source (fst (remember m newId c i tgs now now_evict)) =
     (if i \<ge> 7 / 10 then Tier_long_term
      else if 4 / 10 \<le> i \<and> i < 7 / 10 then Tier_short_term
      else Tier_fleeting)"
  by (simp add: remember_def lt_add_def st_add_def fl_add_def createMemoryEntry_def Let_def)

subsection \<open>Claim C5: the working set is bounded\<close>

lemma maxSize_st_add: "maxSize (snd (st_add st newId c imp tgs now now_evict)) = maxSize st"
  by (simp add: st_add_def evict_def Let_def)

lemma size_st_add: "st_size (snd (st_add st newId c imp tgs now now_evict)) \<le> maxSize st"
  by (simp add: st_add_def evict_def Let_def st_size_def)

lemma run_adds_bound:
  "st_size st \<le> maxSize st \<Longrightarrow>
   st_size (run_adds st calls) \<le> maxSize st \<and> maxSize (run_adds st calls) = maxSize st"
  unfolding run_adds_def
proof (induction calls arbitrary: st)
  case Nil
  then show ?case by simp
next
  case (Cons call calls)
  obtain newId c imp tgs now now_evict where call: "call = (newId, c, imp, tgs, now, now_evict)"
    by (cases call) auto
  let ?st = "st_add_call st call"
  have "st_size ?st \<le> maxSize ?st" and m: "maxSize ?st = maxSize st"
    by (simp_all add: call st_add_call_def size_st_add maxSize_st_add)
  then have "st_size (foldl st_add_call ?st calls) \<le> maxSize ?st \<and>
             maxSize (foldl st_add_call ?st calls) = maxSize ?st"
    using Cons.IH by blast
  then show ?case by (simp add: m)
qed

lemma sorted_front_le_last:
  fixes f :: "'a \<Rightarrow> real"
  assumes "sorted (map f s)" and "s \<noteq> []"
  shows "\<forall>e \<in> set (butlast s). f e \<le> f (last s)"
proof -
  from assms(2) have s: "s = butlast s @ [last s]" by simp
  have "sorted (map f (butlast s @ [last s]))" using assms(1) s by simp
  then show ?thesis by (simp add: sorted_append)
qed

lemma evict_one:
  assumes "length xs = Suc k"
  shows "\<exists>victim. mset xs = mset (take k (sort_key f xs)) + {#victim#} \<and>
           (\<forall>e \<in> set (take k (sort_key f xs)). (f e :: real) \<le> f victim)"
proof -
  let ?s = "sort_key f xs"
  have len: "length ?s = Suc k" using assms by simp
  then have ne: "?s \<noteq> []" by (metis length_0_conv nat.distinct(1))
  have bl: "take k ?s = butlast ?s" using len by (simp add: butlast_conv_take)
  have "mset ?s = mset (butlast ?s) + {#last ?s#}"
  proof -
    have "mset ?s = mset (butlast ?s @ [last ?s])" using ne by simp
    then show ?thesis by (simp only: mset_append mset.simps add_mset_add_single [symmetric])
  qed
  then have m: "mset xs = mset (take k ?s) + {#last ?s#}" by (simp add: bl)
  have "\<forall>e \<in> set (butlast ?s). f e \<le> f (last ?s)"
    by (rule sorted_front_le_last) (simp_all add: ne)
  with m bl show ?thesis by auto
qed

text \<open>
  C5. After every call of any sequence of \<open>add\<close> calls on a working set created with \<open>maxSize = ms\<close>
  (after every prefix \<open>take n calls\<close>), the size is at most \<open>ms\<close>. When the store is full
  (\<open>size = maxSize\<close>, as with five entries and \<open>maxSize = 5\<close>), one more \<open>add\<close> leaves the size at
  \<open>maxSize\<close> and removes exactly one entry \<open>victim\<close> from the old entries together with the new
  one, and no entry that stays has a lower relevance than \<open>victim\<close> at the time of the eviction.
\<close>

theorem working_set_bound:
  "st_size (run_adds (new_ShortTermMemory ms ct) (take n calls)) \<le> ms \<and>
   (st_size st = maxSize st \<longrightarrow>
      st_size (snd (st_add st newId c imp tgs now now_evict)) = maxSize st \<and>
      (\<exists>victim.
         mset (st_entries st) + {#fst (st_add st newId c imp tgs now now_evict)#} =
           mset (st_entries (snd (st_add st newId c imp tgs now now_evict))) + {#victim#} \<and>
         (\<forall>e \<in> set (st_entries (snd (st_add st newId c imp tgs now now_evict))).
            calculateRelevance victim now_evict \<le> calculateRelevance e now_evict)))"
proof (intro conjI impI)
  have "st_size (new_ShortTermMemory ms ct) \<le> maxSize (new_ShortTermMemory ms ct)"
    by (simp add: st_size_def new_ShortTermMemory_def)
  from run_adds_bound [OF this, of "take n calls"]
  show "st_size (run_adds (new_ShortTermMemory ms ct) (take n calls)) \<le> ms"
    by (simp add: new_ShortTermMemory_def)
next
  assume full: "st_size st = maxSize st"
  let ?entry = "createMemoryEntry newId c imp tgs Tier_short_term now"
  let ?xs = "st_entries st @ [?entry]"
  have len: "length ?xs = Suc (maxSize st)" using full by (simp add: st_size_def)
  have res: "st_entries (snd (st_add st newId c imp tgs now now_evict)) =
        take (maxSize st) (sort_key (\<lambda>e. - calculateRelevance e now_evict) ?xs)"
    using full by (simp add: st_add_def evict_def Let_def st_size_def)
  have fst_add: "fst (st_add st newId c imp tgs now now_evict) = ?entry"
    by (simp add: st_add_def Let_def)
  show "st_size (snd (st_add st newId c imp tgs now now_evict)) = maxSize st"
    using len by (simp add: res st_size_def)
  from evict_one [OF len, of "\<lambda>e. - calculateRelevance e now_evict"]
  obtain victim where
    v: "mset ?xs = mset (take (maxSize st) (sort_key (\<lambda>e. - calculateRelevance e now_evict) ?xs)) + {#victim#}"
    and le: "\<forall>e \<in> set (take (maxSize st) (sort_key (\<lambda>e. - calculateRelevance e now_evict) ?xs)).
               - calculateRelevance e now_evict \<le> - calculateRelevance victim now_evict"
    by blast
  show "\<exists>victim.
         mset (st_entries st) + {#fst (st_add st newId c imp tgs now now_evict)#} =
           mset (st_entries (snd (st_add st newId c imp tgs now now_evict))) + {#victim#} \<and>
         (\<forall>e \<in> set (st_entries (snd (st_add st newId c imp tgs now now_evict))).
            calculateRelevance victim now_evict \<le> calculateRelevance e now_evict)"
    unfolding res fst_add using v le by (intro exI [of _ victim]) auto
qed
lemma five_entries_full: "st_size five_entries = maxSize five_entries \<and> maxSize five_entries = 5"
  by (simp add: five_entries_def run_adds_def st_add_call_def st_add_def new_ShortTermMemory_def
      st_size_def Let_def)

text \<open>Witness for C5: the sixth \<open>add\<close> on a store with \<open>maxSize = 5\<close> that holds five entries.\<close>

theorem working_set_bound_witness:
  "st_size five_entries = maxSize five_entries \<and> maxSize five_entries = 5 \<and>
   st_size (snd (st_add five_entries ''id6'' ''entry 6'' (1 / 2) [] 5 5)) = 5 \<and>
   (\<exists>victim.
      mset (st_entries five_entries) + {#fst (st_add five_entries ''id6'' ''entry 6'' (1 / 2) [] 5 5)#} =
        mset (st_entries (snd (st_add five_entries ''id6'' ''entry 6'' (1 / 2) [] 5 5))) + {#victim#} \<and>
      (\<forall>e \<in> set (st_entries (snd (st_add five_entries ''id6'' ''entry 6'' (1 / 2) [] 5 5))).
         calculateRelevance victim 5 \<le> calculateRelevance e 5))"
  using working_set_bound [of 5 "8 / 10" 0 "[]" five_entries "''id6''" "''entry 6''" "1 / 2" "[]" 5 5]
    five_entries_full
  by simp

text \<open>
  In that state every entry has relevance 0 (no entry was read), the sort is stable, and the
  entry that goes is the one just added.
\<close>

lemma sixth_is_dropped:
  "map entry_id (st_entries (snd (st_add five_entries ''id6'' ''entry 6'' (1 / 2) [] 5 5))) =
     [''id1'', ''id2'', ''id3'', ''id4'', ''id5'']"
  by (simp add: five_entries_def run_adds_def st_add_call_def st_add_def new_ShortTermMemory_def
      st_size_def Let_def evict_def calculateRelevance_def createMemoryEntry_def)

subsection \<open>Claim C6: which reads count as an access\<close>

lemma jaccard_hello: "jaccardSimilarity ''hello'' ''hello world'' = 1 / 2"
  by code_simp

lemma includes_hello: "str_includes (toLowerCase ''hello world'') (toLowerCase ''hello'')"
  by code_simp

text \<open>
  C6 says that in every store a match returned by \<open>search\<close> has its \<open>accessCount\<close> incremented.
  In the source only \<^verbatim>\<open>LongTermMemory.search\<close> does that; \<^verbatim>\<open>ShortTermMemory.search\<close> and
  \<^verbatim>\<open>FleetingMemory.search\<close> return their matches untouched. Here: one entry "hello world" is
  added to each store and the query "hello" matches it; the entry returned by the working set and
  the one returned by the fleeting store still have \<open>accessCount = 0\<close> and the time stamp 100 of
  their creation, the one returned by the long-term store has \<open>accessCount = 1\<close> and the time
  stamp 200 of the search.
\<close>

theorem search_without_bump:
  "map (\<lambda>e. (accessCount e, lastAccessed e))
     (st_search (snd (st_add (new_ShortTermMemory 5 (8 / 10)) ''id1'' ''hello world'' (1 / 2) [] 100 100))
        ''hello'' 10) = [(0, 100)] \<and>
   map (\<lambda>e. (accessCount e, lastAccessed e))
     (fl_search (snd (fl_add new_FleetingMemory ''id2'' ''hello world'' (1 / 2) [] 100)) ''hello'') =
     [(0, 100)] \<and>
   map (\<lambda>e. (accessCount e, lastAccessed e))
     (fst (lt_search (snd (lt_add (new_LongTermMemory ''/tmp/m.json'') ''id3'' ''hello world'' (1 / 2) [] 100))
        ''hello'' 10 200)) = [(1, 200)]"
  by (simp add: st_search_def st_add_def new_ShortTermMemory_def fl_search_def fl_add_def
      new_FleetingMemory_def lt_search_def lt_add_def new_LongTermMemory_def createMemoryEntry_def
      bump_def jaccard_hello includes_hello Let_def)

subsection \<open>Claim C7: pruning\<close>

lemma prune_loop_eq:
  "prune_loop thr now ps g n =
     (filter (\<lambda>p. \<not> prunable thr now (snd p)) ps,
      foldl removeNode g (map fst (filter (\<lambda>p. prunable thr now (snd p)) ps)),
      n + length (filter (\<lambda>p. prunable thr now (snd p)) ps))"
  by (induction ps arbitrary: g n) (auto simp: prunable_def Let_def)

text \<open>
  C7. \<open>prune\<close> deletes exactly the entries that were read at least once and whose relevance at
  the time of the call is below \<open>pruneThreshold\<close>; the graph is the old graph after \<open>removeNode\<close>
  for each deleted id, in the order of the store; the value returned is the number of deleted
  entries; an entry with \<open>accessCount = 0\<close> stays.
\<close>

theorem prune_exact:
  "fst (lt_prune lt now) = length (filter (\<lambda>p. prunable (pruneThreshold lt) now (snd p)) (lt_entries lt)) \<and>
   lt_entries (snd (lt_prune lt now)) =
     filter (\<lambda>p. \<not> prunable (pruneThreshold lt) now (snd p)) (lt_entries lt) \<and>
   network (snd (lt_prune lt now)) =
     foldl removeNode (network lt)
       (map fst (filter (\<lambda>p. prunable (pruneThreshold lt) now (snd p)) (lt_entries lt))) \<and>
   (\<forall>p \<in> set (lt_entries lt). accessCount (snd p) = 0 \<longrightarrow> p \<in> set (lt_entries (snd (lt_prune lt now))))"
  by (auto simp: lt_prune_def prune_loop_eq prunable_def)
lemma rel_aged: "calculateRelevance aged_entry 7776000000 < 1 / 100"
  by (simp add: calculateRelevance_def aged_entry_def createMemoryEntry_def)

lemma rel_unread: "calculateRelevance unread_entry 7776000000 = 0"
  by (simp add: calculateRelevance_def unread_entry_def createMemoryEntry_def)

text \<open>
  Witness for C7, ninety days after the last read: the aged entry goes, the entry that was never
  read stays although its relevance is 0.
\<close>

theorem prune_exact_witness:
  "(''b'', unread_entry) \<in> set (lt_entries prune_example) \<and>
   accessCount unread_entry = 0 \<and>
   calculateRelevance unread_entry 7776000000 < pruneThreshold prune_example \<and>
   (''b'', unread_entry) \<in> set (lt_entries (snd (lt_prune prune_example 7776000000))) \<and>
   fst (lt_prune prune_example 7776000000) = 1 \<and>
   lt_entries (snd (lt_prune prune_example 7776000000)) = [(''b'', unread_entry)]"
  using prune_exact [of prune_example 7776000000] rel_aged rel_unread
  by (simp add: prune_example_def new_LongTermMemory_def prunable_def aged_entry_def unread_entry_def
      createMemoryEntry_def)

subsection \<open>Claim C8: serialising the graph\<close>

text \<open>
  C8 says that \<open>fromJSON (toJSON g)\<close> gives the same \<open>getStrength\<close> as \<open>g\<close> on every pair with
  a nonzero edge. For the graph that \<^verbatim>\<open>strengthen("__proto__", "b", 0.5)\<close> builds from the
  empty graph, the edge from \<^verbatim>\<open>__proto__\<close> to \<^verbatim>\<open>b\<close> has weight 0.5 before and weight 0 after the
  round trip: the assignment \<^verbatim>\<open>result[id] = ...\<close> in \<^verbatim>\<open>toJSON\<close> creates no property for that id.
\<close>

theorem roundtrip_loses_proto:
  "getStrength (strengthen default_HebbianNetwork ''__proto__'' ''b'' (1 / 2)) ''__proto__'' ''b'' = 1 / 2 \<and>
   getStrength (fromJSON_default (toJSON (strengthen default_HebbianNetwork ''__proto__'' ''b'' (1 / 2))))
     ''__proto__'' ''b'' = 0"
  by (simp add: getStrength_def fromJSON_default_def fromJSON_def toJSON_def strengthen_def
      default_HebbianNetwork_def new_HebbianNetwork_def ensureNode_def Map_has_def link_def or0_def
      set_link_def obj_assign_def from_entries_def Let_def)

subsection \<open>Claim C9: loading without a usable file\<close>

text \<open>
  C9 says that \<open>load\<close> against a missing or corrupt file leaves the store empty. Counterexample:
  a store to which one entry was added still holds that entry after \<open>load\<close> found no file.
\<close>

theorem load_keeps_stale_entries:
  "snd (lt_load (snd (lt_add (new_LongTermMemory ''/nonexistent/path.json'') ''id1'' ''x'' (1 / 2) [] 100))
          NoFile) =
     Typed (snd (lt_add (new_LongTermMemory ''/nonexistent/path.json'') ''id1'' ''x'' (1 / 2) [] 100)) \<and>
   lt_size (snd (lt_add (new_LongTermMemory ''/nonexistent/path.json'') ''id1'' ''x'' (1 / 2) [] 100)) = 1"
  by (simp add: lt_size_def lt_load_def lt_add_def new_LongTermMemory_def Let_def)

text \<open>
  C9 as amended. \<open>load\<close> never rejects and its result tells the caller nothing, whatever the file
  holds. When the file cannot be read or its text is not JSON, the store is left exactly as it
  was before the call, so a freshly constructed store stays empty.
\<close>

theorem load_recovers_silently:
  "fst (lt_load lt f) = Inr () \<and>
   snd (lt_load lt NoFile) = Typed lt \<and>
   snd (lt_load lt NotJSON) = Typed lt \<and>
   snd (lt_load (new_LongTermMemory path) NoFile) = Typed (new_LongTermMemory path) \<and>
   snd (lt_load (new_LongTermMemory path) NotJSON) = Typed (new_LongTermMemory path) \<and>
   lt_size (new_LongTermMemory path) = 0"
  by (simp add: lt_load_def lt_size_def new_LongTermMemory_def split: file_content.split)

subsection \<open>Loading a text that parses\<close>

text \<open>
  A document written by \<open>save\<close> is read back the same way whether it is taken as the typed
  document or as the JSON value it parses to.
\<close>

lemma those_map_as_string: "those (map (as_string \<circ> JString) ss) = Some ss"
  by (induction ss) (simp_all add: as_string_def)

lemma as_weights_encode:
  "as_weights (map (\<lambda>kw. (fst kw, JNumber (snd kw))) ws) = Some ws"
  by (induction ws) (simp_all add: as_weights_def as_number_def)

lemma as_tier_name: "as_tier (JString (tier_name t)) = Some t"
  by (cases t) (simp_all add: as_tier_def tier_name_def)

lemma as_entry_encode: "as_entry (encode_entry e) = Some e"
  by (simp add: as_entry_def encode_entry_def field_def as_string_def as_number_def as_nat_def
      as_int_def as_strings_def as_weight_object_def encode_weights_def those_map_as_string
      as_weights_encode as_tier_name)

lemma encode_entry_not_null: "encode_entry e \<noteq> JNull"
  by (simp add: encode_entry_def)

lemma load_elements_encode:
  "load_elements (map encode_entry es) acc =
     Completed (foldl (\<lambda>m entry. Map_set (entry_id entry) entry m) acc es)"
  by (induction es arbitrary: acc) (simp_all add: as_entry_encode encode_entry_not_null)

lemma load_nodes_encode:
  "load_nodes (map (\<lambda>node. (fst node, encode_weights (snd node))) a) m =
     Completed (foldl (\<lambda>m node. Map_set (fst node) (from_entries (snd node)) m) m a)"
  by (induction a arbitrary: m)
     (simp_all add: object_entries_def encode_weights_def as_weights_encode)

lemma load_agrees_on_documents: "lt_load lt (Parsed (encode_document d)) = lt_load lt (Document d)"
  by (cases "sf_associations d")
     (simp_all add: lt_load_def load_parsed_def encode_document_def field_def iterable_elements_def
        load_elements_encode load_entries_def is_truthy_def object_entries_def load_nodes_encode
        fromJSON_default_def fromJSON_def)

text \<open>
  What \<open>load\<close> does with a text that parses to something else depends on the text. Four cases
  on a store with a path: a link table that is a number is read as a node without links and the
  graph is replaced; the number 5 in \<^verbatim>\<open>entries\<close> is stored as it is, which leaves the store
  ill-typed; an entry followed by \<^verbatim>\<open>null\<close> leaves the store with that entry, although the
  comment in the \<^verbatim>\<open>catch\<close> block says "start fresh"; the text \<^verbatim>\<open>null\<close> clears the store.
\<close>

lemma load_replaces_graph:
  "snd (lt_load (new_LongTermMemory ''/tmp/m.json'')
          (Parsed (JObject [(''entries'', JArray []), (''associations'', JObject [(''a'', JNumber 1)])]))) =
     Typed ((new_LongTermMemory ''/tmp/m.json'')
              \<lparr>network := \<lparr>associations = [(''a'', [])], decayRate = 5 / 100, maxStrength = 1\<rparr>\<rparr>)"
  by (simp add: lt_load_def load_parsed_def new_LongTermMemory_def field_def iterable_elements_def
      is_truthy_def object_entries_def as_weights_def from_entries_def new_HebbianNetwork_def)

lemma load_stores_junk:
  "snd (lt_load (new_LongTermMemory ''/tmp/m.json'') (Parsed (JObject [(''entries'', JArray [JNumber 5])]))) =
     IllTyped"
  by (simp add: lt_load_def load_parsed_def new_LongTermMemory_def field_def iterable_elements_def
      as_entry_def)

lemma load_half_loaded:
  "snd (lt_load (new_LongTermMemory ''/tmp/m.json'')
          (Parsed (JObject [(''entries'',
             JArray [encode_entry (createMemoryEntry ''id1'' ''x'' (1 / 2) [] Tier_long_term 100), JNull])]))) =
     Typed ((new_LongTermMemory ''/tmp/m.json'')
              \<lparr>lt_entries := [(''id1'', createMemoryEntry ''id1'' ''x'' (1 / 2) [] Tier_long_term 100)]\<rparr>)"
  by (simp add: lt_load_def load_parsed_def new_LongTermMemory_def field_def iterable_elements_def
      as_entry_encode encode_entry_not_null)
     (simp add: createMemoryEntry_def)

lemma load_of_null_clears:
  "storagePath lt \<noteq> [] \<Longrightarrow> snd (lt_load lt (Parsed JNull)) = Typed (lt\<lparr>lt_entries := []\<rparr>)"
  by (simp add: lt_load_def load_parsed_def field_def)

subsection \<open>The merge of \<^verbatim>\<open>recall\<close>\<close>

lemma merge_step_seen:
  "entry_id (fst c) \<in> set seen \<Longrightarrow> merge_step query (seen, merged) c = (seen, merged)"
  by (simp add: merge_step_def)

lemma merge_step_new:
  "entry_id (fst c) \<notin> set seen \<Longrightarrow>
   merge_step query (seen, merged) c =
     (seen @ [entry_id (fst c)], merged @ [(fst c, jaccardSimilarity query (content (fst c)) + snd c)])"
  by (simp add: merge_step_def)

lemma addResults_merge_step:
  "addResults query entries tierBoost acc = foldl (merge_step query) acc (map (\<lambda>e. (e, tierBoost)) entries)"
proof -
  have "foldl (\<lambda>acc entry.
              if entry_id entry \<in> set (fst acc) then acc
              else (let similarity = jaccardSimilarity query (content entry)
                    in (fst acc @ [entry_id entry], snd acc @ [(entry, similarity + tierBoost)])))
       acc entries = foldl (merge_step query) acc (map (\<lambda>e. (e, tierBoost)) entries)"
    by (induction entries arbitrary: acc) (simp_all add: merge_step_def Let_def)
  then show ?thesis by (simp add: addResults_def)
qed

lemma foldl_merge_step:
  "foldl (merge_step query) (seen, merged) cs =
     (seen @ map (\<lambda>c. entry_id (fst c))
               (first_occurrences (\<lambda>c. entry_id (fst c)) (filter (\<lambda>c. entry_id (fst c) \<notin> set seen) cs)),
      merged @ map (\<lambda>c. (fst c, jaccardSimilarity query (content (fst c)) + snd c))
               (first_occurrences (\<lambda>c. entry_id (fst c)) (filter (\<lambda>c. entry_id (fst c) \<notin> set seen) cs)))"
proof (induction cs arbitrary: seen merged)
  case Nil
  then show ?case by simp
next
  case (Cons c cs)
  show ?case
  proof (cases "entry_id (fst c) \<in> set seen")
    case True
    then show ?thesis using Cons.IH [of seen merged] by (simp add: merge_step_seen)
  next
    case False
    have f: "filter (\<lambda>y. entry_id (fst y) \<noteq> entry_id (fst c))
               (filter (\<lambda>c. entry_id (fst c) \<notin> set seen) cs) =
             filter (\<lambda>y. entry_id (fst y) \<notin> set (seen @ [entry_id (fst c)])) cs"
      by (auto intro: filter_cong)
    have step: "foldl (merge_step query) (seen, merged) (c # cs) =
          foldl (merge_step query)
            (seen @ [entry_id (fst c)],
             merged @ [(fst c, jaccardSimilarity query (content (fst c)) + snd c)]) cs"
      using False by (simp add: merge_step_new)
    have F: "first_occurrences (\<lambda>c. entry_id (fst c))
               (filter (\<lambda>c. entry_id (fst c) \<notin> set seen) (c # cs)) =
             c # first_occurrences (\<lambda>c. entry_id (fst c))
                   (filter (\<lambda>y. entry_id (fst y) \<notin> set (seen @ [entry_id (fst c)])) cs)"
    proof -
      have "filter (\<lambda>c. entry_id (fst c) \<notin> set seen) (c # cs) =
            c # filter (\<lambda>c. entry_id (fst c) \<notin> set seen) cs"
        using False by simp
      then show ?thesis by (simp only: first_occurrences.simps f)
    qed
    show ?thesis unfolding step Cons.IH F by simp
  qed
qed

lemma merged_results:
  "snd (addResults query fls b3 (addResults query sts b2 (addResults query lts b1 ([], [])))) =
     map (\<lambda>c. (fst c, jaccardSimilarity query (content (fst c)) + snd c))
       (first_occurrences (\<lambda>c. entry_id (fst c))
          (map (\<lambda>e. (e, b1)) lts @ map (\<lambda>e. (e, b2)) sts @ map (\<lambda>e. (e, b3)) fls))"
proof -
  have "addResults query fls b3 (addResults query sts b2 (addResults query lts b1 ([], []))) =
        foldl (merge_step query) ([], [])
          (map (\<lambda>e. (e, b1)) lts @ map (\<lambda>e. (e, b2)) sts @ map (\<lambda>e. (e, b3)) fls)"
    by (simp add: addResults_merge_step)
  then show ?thesis by (simp only: foldl_merge_step) simp
qed

lemma recall_results:
  "fst (recall m query limit now) =
     map fst (recall_ranked query limit
       (fst (lt_searchWithAssociations (longTerm m) query limit now))
       (st_search (shortTerm m) query limit)
       (fl_search (fleeting m) query))"
  by (simp add: recall_def recall_ranked_def Let_def split_beta merged_results)

lemma recall_ranked_sorted:
  "sorted_wrt (\<lambda>a b. snd a \<ge> snd b) (recall_ranked query limit lts sts fls)"
proof -
  have "sorted (map (\<lambda>s. - snd s) (sort_key (\<lambda>s. - snd s) xs))" for xs :: "(MemoryEntry \<times> real) list"
    by simp
  then have "sorted_wrt (\<lambda>a b. snd a \<ge> snd b) (sort_key (\<lambda>s. - snd s) xs)"
    for xs :: "(MemoryEntry \<times> real) list"
    by (simp add: sorted_map)
  then show ?thesis
    by (simp add: recall_ranked_def Let_def sorted_wrt_take)
qed

subsection \<open>Co-activation and the stored graph\<close>

lemma maxStrength_strengthen [simp]: "maxStrength (strengthen g a b amount) = maxStrength g"
  by (simp add: strengthen_def Let_def)

lemma maxStrength_coActivate_from [simp]: "maxStrength (coActivate_from g x ys) = maxStrength g"
  by (induction ys arbitrary: g) simp_all

lemma maxStrength_coActivate [simp]: "maxStrength (coActivate g xs) = maxStrength g"
  by (induction xs arbitrary: g) simp_all

lemma link_coActivate_from:
  "x \<notin> set ys \<Longrightarrow> distinct ys \<Longrightarrow>
   link (associations (coActivate_from g x ys)) a b =
     (if (a = x \<and> b \<in> set ys) \<or> (b = x \<and> a \<in> set ys)
      then Some (min (maxStrength g) (or0 (link (associations g) a b) + 1 / 10))
      else link (associations g) a b)"
proof (induction ys arbitrary: g)
  case Nil
  then show ?case by simp
next
  case (Cons y ys)
  let ?g = "strengthen g x y (1 / 10)"
  from Cons.prems have xy: "x \<noteq> y" and x: "x \<notin> set ys" and y: "y \<notin> set ys" and d: "distinct ys"
    by auto
  have IH: "link (associations (coActivate_from ?g x ys)) a b =
     (if (a = x \<and> b \<in> set ys) \<or> (b = x \<and> a \<in> set ys)
      then Some (min (maxStrength g) (or0 (link (associations ?g) a b) + 1 / 10))
      else link (associations ?g) a b)"
    using Cons.IH [OF x d, of ?g] by simp
  have s: "link (associations ?g) a b =
     (if (a = x \<and> b = y) \<or> (a = y \<and> b = x)
      then Some (min (maxStrength g) (or0 (link (associations g) a b) + 1 / 10))
      else link (associations g) a b)"
    by (rule link_strengthen)
  consider (hit_now) "(a = x \<and> b = y) \<or> (a = y \<and> b = x)"
    | (hit_later) "(a = x \<and> b \<in> set ys) \<or> (b = x \<and> a \<in> set ys)"
    | (miss) "\<not> ((a = x \<and> b = y) \<or> (a = y \<and> b = x))"
             "\<not> ((a = x \<and> b \<in> set ys) \<or> (b = x \<and> a \<in> set ys))"
    by blast
  then show ?case
  proof cases
    case hit_now
    then have n: "\<not> ((a = x \<and> b \<in> set ys) \<or> (b = x \<and> a \<in> set ys))"
      using x y xy by blast
    have c: "(a = x \<and> b \<in> set (y # ys)) \<or> (b = x \<and> a \<in> set (y # ys))"
      using hit_now by auto
    show ?thesis
      unfolding coActivate_from.simps IH if_not_P [OF n] s if_P [OF hit_now] if_P [OF c] ..
  next
    case hit_later
    then have n: "\<not> ((a = x \<and> b = y) \<or> (a = y \<and> b = x))"
      using x y xy by blast
    have c: "(a = x \<and> b \<in> set (y # ys)) \<or> (b = x \<and> a \<in> set (y # ys))"
      using hit_later by auto
    show ?thesis
      unfolding coActivate_from.simps IH if_P [OF hit_later] s if_not_P [OF n] if_P [OF c] ..
  next
    case miss
    have c: "\<not> ((a = x \<and> b \<in> set (y # ys)) \<or> (b = x \<and> a \<in> set (y # ys)))"
      using miss by auto
    show ?thesis
      unfolding coActivate_from.simps IH if_not_P [OF miss(2)] s if_not_P [OF miss(1)] if_not_P [OF c] ..
  qed
qed

lemma link_coActivate:
  "distinct ids \<Longrightarrow>
   link (associations (coActivate g ids)) a b =
     (if a \<in> set ids \<and> b \<in> set ids \<and> a \<noteq> b
      then Some (min (maxStrength g) (or0 (link (associations g) a b) + 1 / 10))
      else link (associations g) a b)"
proof (induction ids arbitrary: g)
  case Nil
  then show ?case by simp
next
  case (Cons x xs)
  let ?g = "coActivate_from g x xs"
  from Cons.prems have x: "x \<notin> set xs" and d: "distinct xs" by auto
  have IH: "link (associations (coActivate ?g xs)) a b =
     (if a \<in> set xs \<and> b \<in> set xs \<and> a \<noteq> b
      then Some (min (maxStrength g) (or0 (link (associations ?g) a b) + 1 / 10))
      else link (associations ?g) a b)"
    using Cons.IH [OF d, of ?g] by simp
  have s: "link (associations ?g) a b =
     (if (a = x \<and> b \<in> set xs) \<or> (b = x \<and> a \<in> set xs)
      then Some (min (maxStrength g) (or0 (link (associations g) a b) + 1 / 10))
      else link (associations g) a b)"
    by (rule link_coActivate_from [OF x d])
  consider (inner) "a \<in> set xs \<and> b \<in> set xs \<and> a \<noteq> b"
    | (outer) "(a = x \<and> b \<in> set xs) \<or> (b = x \<and> a \<in> set xs)"
    | (miss) "\<not> (a \<in> set xs \<and> b \<in> set xs \<and> a \<noteq> b)"
             "\<not> ((a = x \<and> b \<in> set xs) \<or> (b = x \<and> a \<in> set xs))"
    by blast
  then show ?case
  proof cases
    case inner
    then have n: "\<not> ((a = x \<and> b \<in> set xs) \<or> (b = x \<and> a \<in> set xs))"
      using x by blast
    have c: "a \<in> set (x # xs) \<and> b \<in> set (x # xs) \<and> a \<noteq> b" using inner by auto
    show ?thesis
      unfolding coActivate.simps IH if_P [OF inner] s if_not_P [OF n] if_P [OF c] ..
  next
    case outer
    then have n: "\<not> (a \<in> set xs \<and> b \<in> set xs \<and> a \<noteq> b)"
      using x by blast
    have c: "a \<in> set (x # xs) \<and> b \<in> set (x # xs) \<and> a \<noteq> b" using outer x by auto
    show ?thesis
      unfolding coActivate.simps IH if_not_P [OF n] s if_P [OF outer] if_P [OF c] ..
  next
    case miss
    have c: "\<not> (a \<in> set (x # xs) \<and> b \<in> set (x # xs) \<and> a \<noteq> b)" using miss by auto
    show ?thesis
      unfolding coActivate.simps IH if_not_P [OF miss(1)] s if_not_P [OF miss(2)] if_not_P [OF c] ..
  qed
qed

lemma getStrength_coActivate:
  "distinct ids \<Longrightarrow> a \<in> set ids \<Longrightarrow> b \<in> set ids \<Longrightarrow> a \<noteq> b \<Longrightarrow>
   getStrength (coActivate g ids) a b = min (maxStrength g) (getStrength g a b + 1 / 10)"
  by (simp add: getStrength_def link_coActivate or0_def)

lemma node_coActivate:
  "distinct ids \<Longrightarrow> a \<in> set ids \<Longrightarrow> b \<in> set ids \<Longrightarrow> a \<noteq> b \<Longrightarrow>
   Map_has a (associations (coActivate g ids))"
proof -
  assume "distinct ids" "a \<in> set ids" "b \<in> set ids" "a \<noteq> b"
  then have "link (associations (coActivate g ids)) a b \<noteq> None"
    by (simp add: link_coActivate)
  then show ?thesis
    by (auto simp: link_def Map_has_def split: option.splits)
qed

lemma keyset_Map_set: "fst ` set (Map_set k v ps) = insert k (fst ` set ps)"
  by (induction ps) auto

lemma keys_foldl_obj_assign:
  "fst ` set (foldl (\<lambda>result node. obj_assign (fst node) (f (snd node)) result) acc xs) =
   fst ` set acc \<union> (fst ` set xs - {''__proto__''})"
proof (induction xs arbitrary: acc)
  case Nil
  then show ?case by simp
next
  case (Cons x xs)
  have "fst ` set (obj_assign (fst x) (f (snd x)) acc) =
        (if fst x = ''__proto__'' then fst ` set acc else insert (fst x) (fst ` set acc))"
    by (simp add: obj_assign_def keyset_Map_set)
  then show ?case using Cons.IH [of "obj_assign (fst x) (f (snd x)) acc"] by auto
qed

lemma keys_toJSON: "fst ` set (toJSON g) = fst ` set (associations g) - {''__proto__''}"
  by (simp add: toJSON_def keys_foldl_obj_assign)

lemma network_lt_search: "network (snd (lt_search lt query limit now)) = network lt"
  by (simp add: lt_search_def Let_def)

lemma network_lt_searchWithAssociations:
  "network (snd (lt_searchWithAssociations lt query limit now)) = network lt"
  by (simp add: lt_searchWithAssociations_def Let_def split_beta network_lt_search)

subsection \<open>The three-tier example\<close>

lemma jaccard_cache:
  "jaccardSimilarity ''cache'' ''long term cache patterns'' = 1 / 4"
  "jaccardSimilarity ''cache'' ''short term cache usage'' = 1 / 4"
  "jaccardSimilarity ''cache'' ''fleeting cache idea'' = 1 / 3"
  by code_simp+

lemma includes_cache: "str_includes (toLowerCase ''fleeting cache idea'') (toLowerCase ''cache'')"
  by code_simp

lemma three_tiers_eq:
  "three_tiers =
     \<lparr>fleeting = \<lparr>fl_store = [(''F1'', createMemoryEntry ''F1'' ''fleeting cache idea'' (2 / 10) [] Tier_fleeting 3)]\<rparr>,
      shortTerm = \<lparr>st_entries = [createMemoryEntry ''S1'' ''short term cache usage'' (5 / 10) [] Tier_short_term 2],
                   maxSize = 10, compressionThreshold = 8 / 10\<rparr>,
      longTerm = \<lparr>lt_entries = [(''L1'', createMemoryEntry ''L1'' ''long term cache patterns'' (9 / 10) [] Tier_long_term 1)],
                  storagePath = ''/tmp/m.json'', pruneThreshold = 1 / 100, maxEntries = 1000,
                  network = default_HebbianNetwork, dirty = True\<rparr>,
      recentlyRecalled = []\<rparr>"
  by (simp add: three_tiers_def remember_def new_MemoryManager_def lt_add_def st_add_def fl_add_def
      new_FleetingMemory_def new_ShortTermMemory_def new_LongTermMemory_def Let_def)

lemma three_tiers_searches:
  "fst (lt_searchWithAssociations (longTerm three_tiers) ''cache'' 10 4) =
     [bump 4 (createMemoryEntry ''L1'' ''long term cache patterns'' (9 / 10) [] Tier_long_term 1)]"
  "st_search (shortTerm three_tiers) ''cache'' 10 =
     [createMemoryEntry ''S1'' ''short term cache usage'' (5 / 10) [] Tier_short_term 2]"
  "fl_search (fleeting three_tiers) ''cache'' =
     [createMemoryEntry ''F1'' ''fleeting cache idea'' (2 / 10) [] Tier_fleeting 3]"
    apply (simp_all add: three_tiers_eq lt_searchWithAssociations_def lt_search_def st_search_def fl_search_def
      Let_def)
    apply (simp_all add: createMemoryEntry_def jaccard_cache includes_cache bump_def
      getStrongestAssociations_def default_HebbianNetwork_def new_HebbianNetwork_def)
  done

lemma three_tiers_ranked:
  "recall_ranked ''cache'' 10
     (fst (lt_searchWithAssociations (longTerm three_tiers) ''cache'' 10 4))
     (st_search (shortTerm three_tiers) ''cache'' 10)
     (fl_search (fleeting three_tiers) ''cache'') =
   [(bump 4 (createMemoryEntry ''L1'' ''long term cache patterns'' (9 / 10) [] Tier_long_term 1), 9 / 20),
    (createMemoryEntry ''S1'' ''short term cache usage'' (5 / 10) [] Tier_short_term 2, 7 / 20),
    (createMemoryEntry ''F1'' ''fleeting cache idea'' (2 / 10) [] Tier_fleeting 3, 1 / 3)]"
  unfolding three_tiers_searches
  by (simp add: recall_ranked_def createMemoryEntry_def bump_def jaccard_cache Let_def)


lemma set_first_occurrences: "set (first_occurrences key xs) \<subseteq> set xs"
  by (induction key xs rule: first_occurrences.induct) auto

lemma distinct_first_occurrences: "distinct (map key (first_occurrences key xs))"
proof (induction key xs rule: first_occurrences.induct)
  case (1 key)
  then show ?case by simp
next
  case (2 key x xs)
  have "key x \<notin> key ` set (first_occurrences key (filter (\<lambda>y. key y \<noteq> key x) xs))"
    using set_first_occurrences [of key "filter (\<lambda>y. key y \<noteq> key x) xs"] by auto
  with 2 show ?case by simp
qed

lemma distinct_map_sort_key: "distinct (map g (sort_key f xs)) = distinct (map g xs)"
proof -
  have "mset (map g (sort_key f xs)) = mset (map g xs)" by simp
  then show ?thesis by (rule mset_eq_imp_distinct_iff)
qed

lemma recall_ranked_distinct:
  "distinct (map (\<lambda>c. entry_id (fst c)) (recall_ranked query limit lts sts fls))"
proof -
  let ?survivors = "first_occurrences (\<lambda>c. entry_id (fst c))
      (map (\<lambda>e. (e, 2 / 10)) lts @ map (\<lambda>e. (e, 1 / 10)) sts @ map (\<lambda>e. (e, 0 :: real)) fls)"
  let ?scored = "map (\<lambda>c. (fst c, jaccardSimilarity query (content (fst c)) + snd c)) ?survivors"
  have "map (\<lambda>c. entry_id (fst c)) ?scored = map (\<lambda>c. entry_id (fst c)) ?survivors"
    by simp
  then have "distinct (map (\<lambda>c. entry_id (fst c)) ?scored)"
    using distinct_first_occurrences [of "\<lambda>c. entry_id (fst c)"] by (simp only:)
  then have "distinct (map (\<lambda>c. entry_id (fst c)) (sort_key (\<lambda>s. - snd s) ?scored))"
    by (simp only: distinct_map_sort_key)
  then have "distinct (take limit (map (\<lambda>c. entry_id (fst c)) (sort_key (\<lambda>s. - snd s) ?scored)))"
    by (rule distinct_take)
  then show ?thesis
    by (simp add: recall_ranked_def Let_def take_map)
qed

lemma recall_ids_distinct: "distinct (map entry_id (fst (recall m query limit now)))"
  using recall_ranked_distinct
  by (simp add: recall_results comp_def)

lemma recall_network:
  "network (longTerm (snd (recall m query limit now))) =
     (if length (fst (recall m query limit now)) > 1
      then coActivate (network (longTerm m)) (map entry_id (fst (recall m query limit now)))
      else network (longTerm m))"
  by (simp add: recall_def Let_def split_beta network_lt_searchWithAssociations)

lemma document_nodes_save:
  "storagePath (longTerm m) \<noteq> [] \<Longrightarrow> dirty (longTerm m) \<Longrightarrow>
   set (document_nodes (snd (snd (save m f True)))) =
     fst ` set (associations (network (longTerm m))) - {''__proto__''}"
  by (simp add: save_def lt_save_def Let_def document_nodes_def keys_toJSON)
lemma three_tiers_recall_ids:
  "map entry_id (fst (recall three_tiers ''cache'' 10 4)) = [''L1'', ''S1'', ''F1'']"
  by (simp add: recall_results three_tiers_ranked createMemoryEntry_def bump_def)

lemma lt_search_fields:
  "map fst (lt_entries (snd (lt_search lt query limit now))) = map fst (lt_entries lt)"
  "storagePath (snd (lt_search lt query limit now)) = storagePath lt"
  "dirty lt \<Longrightarrow> dirty (snd (lt_search lt query limit now))"
  by (simp_all add: lt_search_def Let_def comp_def if_distrib [of fst] cong: if_cong)

lemma recall_longTerm_fields:
  "map fst (lt_entries (longTerm (snd (recall m query limit now)))) = map fst (lt_entries (longTerm m))"
  "storagePath (longTerm (snd (recall m query limit now))) = storagePath (longTerm m)"
  "dirty (longTerm m) \<Longrightarrow> dirty (longTerm (snd (recall m query limit now)))"
  by (simp_all add: recall_def Let_def split_beta lt_searchWithAssociations_def lt_search_fields)

lemma three_tiers_store_after_recall:
  "map fst (lt_entries (longTerm (snd (recall three_tiers ''cache'' 10 4)))) = [''L1''] \<and>
   storagePath (longTerm (snd (recall three_tiers ''cache'' 10 4))) = ''/tmp/m.json'' \<and>
   dirty (longTerm (snd (recall three_tiers ''cache'' 10 4)))"
  by (simp add: recall_longTerm_fields three_tiers_eq)

lemma three_tiers_graph_before:
  "getStrength (network (longTerm three_tiers)) ''S1'' ''F1'' = 0 \<and>
   maxStrength (network (longTerm three_tiers)) = 1"
  by (simp add: three_tiers_eq getStrength_def link_def or0_def default_HebbianNetwork_def
      new_HebbianNetwork_def)

subsection \<open>The example without a long-term entry\<close>

lemma two_tiers_eq:
  "two_tiers =
     \<lparr>fleeting = \<lparr>fl_store = [(''F1'', createMemoryEntry ''F1'' ''fleeting cache idea'' (2 / 10) [] Tier_fleeting 3)]\<rparr>,
      shortTerm = \<lparr>st_entries = [createMemoryEntry ''S1'' ''short term cache usage'' (5 / 10) [] Tier_short_term 2],
                   maxSize = 10, compressionThreshold = 8 / 10\<rparr>,
      longTerm = new_LongTermMemory ''/tmp/m.json'',
      recentlyRecalled = []\<rparr>"
  by (simp add: two_tiers_def remember_def new_MemoryManager_def st_add_def fl_add_def
      new_FleetingMemory_def new_ShortTermMemory_def Let_def)

lemma two_tiers_searches:
  "lt_searchWithAssociations (longTerm two_tiers) ''cache'' 10 4 = ([], new_LongTermMemory ''/tmp/m.json'')"
  "st_search (shortTerm two_tiers) ''cache'' 10 =
     [createMemoryEntry ''S1'' ''short term cache usage'' (5 / 10) [] Tier_short_term 2]"
  "fl_search (fleeting two_tiers) ''cache'' =
     [createMemoryEntry ''F1'' ''fleeting cache idea'' (2 / 10) [] Tier_fleeting 3]"
    apply (simp_all add: two_tiers_eq lt_searchWithAssociations_def lt_search_def st_search_def fl_search_def
      Let_def new_LongTermMemory_def)
    apply (simp_all add: createMemoryEntry_def jaccard_cache includes_cache)
  done

lemma two_tiers_recall_ids:
  "map entry_id (fst (recall two_tiers ''cache'' 10 4)) = [''S1'', ''F1'']"
  by (simp add: recall_results two_tiers_searches recall_ranked_def Let_def)
     (simp add: createMemoryEntry_def jaccard_cache)

lemma two_tiers_store_after_recall:
  "longTerm (snd (recall two_tiers ''cache'' 10 4)) =
     (new_LongTermMemory ''/tmp/m.json'')
       \<lparr>network := coActivate default_HebbianNetwork [''S1'', ''F1'']\<rparr>"
proof -
  have n: "network (longTerm (snd (recall two_tiers ''cache'' 10 4))) =
           coActivate default_HebbianNetwork [''S1'', ''F1'']"
    using two_tiers_recall_ids
    by (simp add: recall_network two_tiers_eq new_LongTermMemory_def)
       (metis length_map list.size(3) list.size(4) One_nat_def lessI add.commute plus_1_eq_Suc)
  have "longTerm (snd (recall two_tiers ''cache'' 10 4)) =
          (new_LongTermMemory ''/tmp/m.json'')
            \<lparr>network := network (longTerm (snd (recall two_tiers ''cache'' 10 4)))\<rparr>"
    by (simp add: recall_def Let_def split_beta two_tiers_searches)
  then show ?thesis by (simp only: n)
qed

lemma two_tiers_graph_after_recall:
  "network (longTerm (snd (recall two_tiers ''cache'' 10 4))) =
     \<lparr>associations = [(''S1'', [(''F1'', 1 / 10)]), (''F1'', [(''S1'', 1 / 10)])],
      decayRate = 5 / 100, maxStrength = 1\<rparr>"
  by (simp add: two_tiers_store_after_recall strengthen_def default_HebbianNetwork_def
      new_HebbianNetwork_def ensureNode_def Map_has_def link_def or0_def set_link_def Let_def)

subsection \<open>Claim C3: what \<open>recall\<close> returns\<close>

text \<open>
  C3. The list returned by \<open>recall\<close> is the list of entries of \<open>recall_ranked\<close> applied to the
  results of the three tier searches: merged by id with the first occurrence winning in the
  order long-term, working set, fleeting; each survivor scored with the Jaccard similarity of
  the query and its content plus 0.2, 0.1 or 0 for the tier it came from; the scores are
  descending along the list, the list has at most \<open>limit\<close> elements, and no id occurs twice.
\<close>

theorem recall_ranking:
  "fst (recall m query limit now) =
     map fst (recall_ranked query limit
       (fst (lt_searchWithAssociations (longTerm m) query limit now))
       (st_search (shortTerm m) query limit)
       (fl_search (fleeting m) query)) \<and>
   sorted_wrt (\<lambda>a b. snd a \<ge> snd b) (recall_ranked query limit lts sts fls) \<and>
   length (recall_ranked query limit lts sts fls) \<le> limit \<and>
   distinct (map (\<lambda>c. entry_id (fst c)) (recall_ranked query limit lts sts fls))"
  using recall_results recall_ranked_sorted recall_ranked_distinct
  by (simp add: recall_ranked_def Let_def)

text \<open>
  Witness for C3: the three entries of the example all match "cache"; the long-term entry
  (similarity 1/4, boost 0.2) comes before the working-set entry (1/4, boost 0.1) and the
  fleeting entry (1/3, no boost).
\<close>

theorem recall_ranking_witness:
  "map entry_id (fst (recall three_tiers ''cache'' 10 4)) = [''L1'', ''S1'', ''F1''] \<and>
   map source (fst (recall three_tiers ''cache'' 10 4)) = [Tier_long_term, Tier_short_term, Tier_fleeting] \<and>
   map snd (recall_ranked ''cache'' 10
     (fst (lt_searchWithAssociations (longTerm three_tiers) ''cache'' 10 4))
     (st_search (shortTerm three_tiers) ''cache'' 10)
     (fl_search (fleeting three_tiers) ''cache'')) = [9 / 20, 7 / 20, 1 / 3]"
  using recall_ranking [of three_tiers "''cache''" 10 4]
  by (simp add: three_tiers_ranked createMemoryEntry_def bump_def)

subsection \<open>Claim C10: \<open>recall\<close> links what it returns\<close>

text \<open>
  C10 says that the ids \<open>recall\<close> links appear in the document written by \<open>save\<close>.
  Counterexample: a manager with a storage path that holds one working-set entry \<open>S1\<close> and one
  fleeting entry \<open>F1\<close>, both matching "cache". After \<open>recall\<close> the two ids are nodes of the
  long-term graph, linked with weight 0.1, and the long-term store has no entry; the store is
  not dirty, so \<open>save\<close> returns without writing: the file is still missing and no document
  lists the ids.
\<close>

theorem recall_links_unsaved:
  "map entry_id (fst (recall two_tiers ''cache'' 10 4)) = [''S1'', ''F1''] \<and>
   getStrength (network (longTerm (snd (recall two_tiers ''cache'' 10 4)))) ''S1'' ''F1'' = 1 / 10 \<and>
   Map_has ''S1'' (associations (network (longTerm (snd (recall two_tiers ''cache'' 10 4))))) \<and>
   Map_has ''F1'' (associations (network (longTerm (snd (recall two_tiers ''cache'' 10 4))))) \<and>
   lt_entries (longTerm (snd (recall two_tiers ''cache'' 10 4))) = [] \<and>
   storagePath (longTerm (snd (recall two_tiers ''cache'' 10 4))) = ''/tmp/m.json'' \<and>
   \<not> dirty (longTerm (snd (recall two_tiers ''cache'' 10 4))) \<and>
   save (snd (recall two_tiers ''cache'' 10 4)) NoFile True =
     (Inr (), snd (recall two_tiers ''cache'' 10 4), NoFile) \<and>
   document_nodes (snd (snd (save (snd (recall two_tiers ''cache'' 10 4)) NoFile True))) = []"
proof -
  have d: "\<not> dirty (longTerm (snd (recall two_tiers ''cache'' 10 4)))"
    and e: "lt_entries (longTerm (snd (recall two_tiers ''cache'' 10 4))) = []"
    and p: "storagePath (longTerm (snd (recall two_tiers ''cache'' 10 4))) = ''/tmp/m.json''"
    by (simp_all add: two_tiers_store_after_recall new_LongTermMemory_def)
  have s: "save (snd (recall two_tiers ''cache'' 10 4)) NoFile True =
             (Inr (), snd (recall two_tiers ''cache'' 10 4), NoFile)"
    using d by (simp add: save_def lt_save_def)
  have g: "getStrength (network (longTerm (snd (recall two_tiers ''cache'' 10 4)))) ''S1'' ''F1'' = 1 / 10"
    and h: "Map_has ''S1'' (associations (network (longTerm (snd (recall two_tiers ''cache'' 10 4)))))"
    and h': "Map_has ''F1'' (associations (network (longTerm (snd (recall two_tiers ''cache'' 10 4)))))"
    by (simp_all add: two_tiers_graph_after_recall getStrength_def link_def or0_def Map_has_def)
  have n: "document_nodes (snd (snd (save (snd (recall two_tiers ''cache'' 10 4)) NoFile True))) = []"
    by (simp only: s) (simp add: document_nodes_def)
  from two_tiers_recall_ids g h h' e p d s n show ?thesis by blast
qed

text \<open>
  C10 as amended. When \<open>recall\<close> returns two or more entries, every pair of distinct returned ids
  \<open>a\<close>, \<open>b\<close> has its weight in the graph of the long-term store raised by 0.1 (capped at
  \<open>maxStrength\<close>), from whichever tiers the two entries came; \<open>a\<close> is then a node of that graph,
  whether or not the long-term store holds an entry with that id; and when a \<open>save\<close> after the
  recall writes the document (the path is set and the store is dirty) \<open>a\<close> is among the nodes of
  the document, for every id \<open>a\<close> other than \<^verbatim>\<open>__proto__\<close>.
\<close>

theorem recall_coactivates:
  assumes "recall m query limit now = (results, m')"
    and "length results \<ge> 2"
    and "a \<in> set (map entry_id results)"
    and "b \<in> set (map entry_id results)"
    and "a \<noteq> b"
  shows "getStrength (network (longTerm m')) a b =
           min (maxStrength (network (longTerm m))) (getStrength (network (longTerm m)) a b + 1 / 10) \<and>
         Map_has a (associations (network (longTerm m'))) \<and>
         (storagePath (longTerm m') \<noteq> [] \<and> dirty (longTerm m') \<and> a \<noteq> ''__proto__'' \<longrightarrow>
            a \<in> set (document_nodes (snd (snd (save m' f True)))))"
proof -
  let ?ids = "map entry_id results"
  have r: "results = fst (recall m query limit now)" and m': "m' = snd (recall m query limit now)"
    using assms(1) by simp_all
  have d: "distinct ?ids" unfolding r by (rule recall_ids_distinct)
  have n: "network (longTerm m') = coActivate (network (longTerm m)) ?ids"
    using assms(2) unfolding r m' by (simp add: recall_network)
  have s: "getStrength (network (longTerm m')) a b =
           min (maxStrength (network (longTerm m))) (getStrength (network (longTerm m)) a b + 1 / 10)"
    unfolding n using d assms(3,4,5) by (rule getStrength_coActivate)
  have h: "Map_has a (associations (network (longTerm m')))"
    unfolding n using d assms(3,4,5) by (rule node_coActivate)
  have "a \<in> set (document_nodes (snd (snd (save m' f True))))"
    if "storagePath (longTerm m') \<noteq> []" "dirty (longTerm m')" "a \<noteq> ''__proto__''"
  proof -
    from h obtain links where "map_of (associations (network (longTerm m'))) a = Some links"
      by (auto simp: Map_has_def)
    then have "a \<in> fst ` set (associations (network (longTerm m')))"
      by (metis map_of_SomeD fst_conv image_eqI)
    then show ?thesis using that by (simp add: document_nodes_save)
  qed
  with s h show ?thesis by blast
qed

text \<open>
  Witness for C10: in the three-tier example the working-set id \<open>S1\<close> and the fleeting id \<open>F1\<close> are linked
  with weight 0.1 after the recall, \<open>S1\<close> is a node of the graph and of the document that \<open>save\<close>
  writes, and the only entry of the long-term store is \<open>L1\<close>.
\<close>

theorem recall_coactivates_witness:
  "recall three_tiers ''cache'' 10 4 =
     (fst (recall three_tiers ''cache'' 10 4), snd (recall three_tiers ''cache'' 10 4)) \<and>
   length (fst (recall three_tiers ''cache'' 10 4)) \<ge> 2 \<and>
   ''S1'' \<in> set (map entry_id (fst (recall three_tiers ''cache'' 10 4))) \<and>
   ''F1'' \<in> set (map entry_id (fst (recall three_tiers ''cache'' 10 4))) \<and>
   ''S1'' \<noteq> ''F1'' \<and>
   getStrength (network (longTerm (snd (recall three_tiers ''cache'' 10 4)))) ''S1'' ''F1'' = 1 / 10 \<and>
   Map_has ''S1'' (associations (network (longTerm (snd (recall three_tiers ''cache'' 10 4))))) \<and>
   map fst (lt_entries (longTerm (snd (recall three_tiers ''cache'' 10 4)))) = [''L1''] \<and>
   ''S1'' \<in> set (document_nodes (snd (snd (save (snd (recall three_tiers ''cache'' 10 4)) NoFile True))))"
proof -
  have ids: "map entry_id (fst (recall three_tiers ''cache'' 10 4)) = [''L1'', ''S1'', ''F1'']"
    by (rule three_tiers_recall_ids)
  have "length (map entry_id (fst (recall three_tiers ''cache'' 10 4))) = 3"
    unfolding ids by simp
  then have len: "length (fst (recall three_tiers ''cache'' 10 4)) \<ge> 2"
    by simp
  have s1: "''S1'' \<in> set (map entry_id (fst (recall three_tiers ''cache'' 10 4)))"
    and f1: "''F1'' \<in> set (map entry_id (fst (recall three_tiers ''cache'' 10 4)))"
    unfolding ids by simp_all
  have ne: "''S1'' \<noteq> ''F1''" by simp
  have p: "recall three_tiers ''cache'' 10 4 =
     (fst (recall three_tiers ''cache'' 10 4), snd (recall three_tiers ''cache'' 10 4))"
    by simp
  have w: "getStrength (network (longTerm (snd (recall three_tiers ''cache'' 10 4)))) ''S1'' ''F1'' =
           min (maxStrength (network (longTerm three_tiers)))
             (getStrength (network (longTerm three_tiers)) ''S1'' ''F1'' + 1 / 10)"
    and h: "Map_has ''S1'' (associations (network (longTerm (snd (recall three_tiers ''cache'' 10 4)))))"
    and doc: "storagePath (longTerm (snd (recall three_tiers ''cache'' 10 4))) \<noteq> [] \<and>
              dirty (longTerm (snd (recall three_tiers ''cache'' 10 4))) \<and> ''S1'' \<noteq> ''__proto__'' \<longrightarrow>
              ''S1'' \<in> set (document_nodes (snd (snd (save (snd (recall three_tiers ''cache'' 10 4)) NoFile True))))"
    using recall_coactivates [OF p len s1 f1 ne, of NoFile] by blast+
  have w': "getStrength (network (longTerm (snd (recall three_tiers ''cache'' 10 4)))) ''S1'' ''F1'' = 1 / 10"
    unfolding w using three_tiers_graph_before by simp
  have doc': "''S1'' \<in> set (document_nodes (snd (snd (save (snd (recall three_tiers ''cache'' 10 4)) NoFile True))))"
    using doc three_tiers_store_after_recall by simp
  show ?thesis
    using p len s1 f1 ne w' h doc' three_tiers_store_after_recall by blast
qed

subsection \<open>Claim C2: the consolidation protocol\<close>

lemma consolidate_eq_steps:
  "consolidate m now now_prune f can_write = consolidate_steps m now now_prune f can_write"
  by (simp add: consolidate_def consolidate_steps_def step_promote_def step_decay_def step_prune_def
      step_clear_def save_def Let_def split_beta split: sum.split)

lemma compress_due:
  "compression_due st \<Longrightarrow>
   compress st now =
     (filter promotable (sort_key (\<lambda>e. - calculateRelevance e now) (st_entries st)),
      st\<lparr>st_entries := filter (\<lambda>e. entry_id e \<notin> entry_id ` {x \<in> set (st_entries st). promotable x})
                          (st_entries st)\<rparr>)"
  by (auto simp: compress_def compression_due_def Let_def not_less intro!: arg_cong2 [where f = "st_entries_update"] filter_cong)

lemma compress_not_due: "\<not> compression_due st \<Longrightarrow> compress st now = ([], st)"
  by (auto simp: compress_def compression_due_def not_le)

lemma map_of_promote_other:
  "k \<notin> entry_id ` set ps \<Longrightarrow>
   map_of (lt_entries (promote_all lt ps)) k = map_of (lt_entries lt) k"
  unfolding promote_all_def
  by (induction ps arbitrary: lt) (auto simp: lt_promote_def Let_def map_of_Map_set)

lemma map_of_promote_all:
  "distinct (map entry_id ps) \<Longrightarrow> e \<in> set ps \<Longrightarrow>
   map_of (lt_entries (promote_all lt ps)) (entry_id e) = Some (e\<lparr>source := Tier_long_term\<rparr>)"
proof (induction ps arbitrary: lt)
  case Nil
  then show ?case by simp
next
  case (Cons p ps)
  let ?lt = "snd (lt_promote lt p)"
  have unfold: "promote_all lt (p # ps) = promote_all ?lt ps"
    by (simp add: promote_all_def)
  show ?case
  proof (cases "e = p")
    case True
    with Cons.prems have "entry_id e \<notin> entry_id ` set ps" by auto
    then have "map_of (lt_entries (promote_all ?lt ps)) (entry_id e) = map_of (lt_entries ?lt) (entry_id e)"
      by (rule map_of_promote_other)
    also have "\<dots> = Some (e\<lparr>source := Tier_long_term\<rparr>)"
      using True by (simp add: lt_promote_def Let_def map_of_Map_set)
    finally show ?thesis by (simp only: unfold)
  next
    case False
    with Cons.prems have "e \<in> set ps" "distinct (map entry_id ps)" by auto
    then show ?thesis using Cons.IH [of ?lt] by (simp only: unfold)
  qed
qed

lemma map_of_filter_keep:
  "map_of es k = Some v \<Longrightarrow> P (k, v) \<Longrightarrow> map_of (filter P es) k = Some v"
  by (induction es) (auto split: if_splits)

lemma lt_entries_lt_prune:
  "lt_entries (snd (lt_prune lt now)) =
     filter (\<lambda>p. \<not> prunable (pruneThreshold lt) now (snd p)) (lt_entries lt)"
  by (simp add: lt_prune_def prune_loop_eq)

lemma promote_all_fields:
  "pruneThreshold (promote_all lt ps) = pruneThreshold lt"
  "network (promote_all lt ps) = network lt"
  "storagePath (promote_all lt ps) = storagePath lt"
  unfolding promote_all_def
  by (induction ps arbitrary: lt) (simp_all add: lt_promote_def Let_def)

lemma prunable_promoted:
  "prunable thr now (e\<lparr>source := Tier_long_term\<rparr>) = prunable thr now e"
  by (simp add: prunable_def calculateRelevance_def)

lemma consolidate_components:
  "fst (consolidate m now now_prune f can_write) =
     (if storagePath (longTerm m) \<noteq> [] \<and> \<not> can_write \<and>
         dirty (snd (lt_prune ((promote_all (longTerm m) (fst (compress (shortTerm m) now)))
                  \<lparr>network := decay (network (promote_all (longTerm m) (fst (compress (shortTerm m) now))))\<rparr>) now_prune))
      then Inl WriteFailed else Inr (length (fst (compress (shortTerm m) now))))"
  "fleeting (fst (snd (consolidate m now now_prune f can_write))) = fl_clear (fleeting m)"
  "shortTerm (fst (snd (consolidate m now now_prune f can_write))) = snd (compress (shortTerm m) now)"
  "lt_entries (longTerm (fst (snd (consolidate m now now_prune f can_write)))) =
     filter (\<lambda>p. \<not> prunable (pruneThreshold (longTerm m)) now_prune (snd p))
       (lt_entries (promote_all (longTerm m) (fst (compress (shortTerm m) now))))"
  by (simp_all add: consolidate_def Let_def split_beta lt_save_def lt_entries_lt_prune promote_all_fields
      lt_prune_def prune_loop_eq)


lemma idle_manager_eq:
  "idle_manager =
     \<lparr>fleeting = new_FleetingMemory,
      shortTerm = \<lparr>st_entries = [read_entry 3], maxSize = 10, compressionThreshold = 8 / 10\<rparr>,
      longTerm = new_LongTermMemory ''/tmp/m.json'',
      recentlyRecalled = []\<rparr>"
  by (simp add: idle_manager_def read_W1_def remember_def new_MemoryManager_def st_add_def st_get_def
      new_ShortTermMemory_def createMemoryEntry_def read_entry_def bump_def Let_def)

lemma worthy_manager_eq:
  "worthy_manager =
     \<lparr>fleeting = new_FleetingMemory,
      shortTerm = \<lparr>st_entries = [read_entry 4], maxSize = 1, compressionThreshold = 8 / 10\<rparr>,
      longTerm = new_LongTermMemory ''/tmp/m.json'',
      recentlyRecalled = []\<rparr>"
  by (simp add: worthy_manager_def read_W1_def remember_def new_MemoryManager_def st_add_def st_get_def
      new_ShortTermMemory_def createMemoryEntry_def read_entry_def bump_def Let_def)

lemma length_promoted:
  "compression_due st \<Longrightarrow> length (fst (compress st now)) = length (filter promotable (st_entries st))"
  by (simp add: compress_due filter_sort)

text \<open>
  C2 as amended. \<open>consolidate\<close> is the five steps in their order; afterwards the fleeting store
  is empty, and unless \<open>save\<close> fails the value returned is the number of entries promoted.
  Below the compression threshold nothing is promoted and the working set is unchanged. At or
  above it, the entries promoted are those with \<open>accessCount \<ge> 3\<close> or \<open>importance \<ge> 0.7\<close>; each
  of them is absent from the working set afterwards (also no entry with its id is left), and,
  ids in the working set being distinct, is stored in the long-term store under its id with
  tier \<open>long_term\<close> unless step 3 prunes it (it was read and its relevance at that time is below
  \<open>pruneThreshold\<close>).
\<close>

theorem consolidate_protocol:
  assumes "consolidate m now now_prune f can_write = (r, m', f')"
  shows "(r, m', f') = consolidate_steps m now now_prune f can_write \<and>
    fl_size (fleeting m') = 0 \<and>
    (can_write \<longrightarrow> r = Inr (length (fst (compress (shortTerm m) now)))) \<and>
    (\<not> compression_due (shortTerm m) \<longrightarrow>
       fst (compress (shortTerm m) now) = [] \<and> shortTerm m' = shortTerm m) \<and>
    (compression_due (shortTerm m) \<longrightarrow>
       length (fst (compress (shortTerm m) now)) = length (filter promotable (st_entries (shortTerm m)))) \<and>
    (compression_due (shortTerm m) \<and> e \<in> set (st_entries (shortTerm m)) \<and> promotable e \<longrightarrow>
       e \<in> set (fst (compress (shortTerm m) now)) \<and>
       e \<notin> set (st_entries (shortTerm m')) \<and>
       entry_id e \<notin> entry_id ` set (st_entries (shortTerm m')) \<and>
       (distinct (map entry_id (st_entries (shortTerm m))) \<and>
        \<not> prunable (pruneThreshold (longTerm m)) now_prune e \<longrightarrow>
          map_of (lt_entries (longTerm m')) (entry_id e) = Some (e\<lparr>source := Tier_long_term\<rparr>)))"
proof -
  let ?st = "shortTerm m"
  let ?promoted = "fst (compress ?st now)"
  have r: "r = fst (consolidate m now now_prune f can_write)"
    and m': "m' = fst (snd (consolidate m now now_prune f can_write))"
    using assms by simp_all
  have steps: "(r, m', f') = consolidate_steps m now now_prune f can_write"
    using assms by (simp add: consolidate_eq_steps)
  have fl: "fl_size (fleeting m') = 0"
    unfolding m' by (simp add: consolidate_components fl_clear_def fl_size_def)
  have ret: "can_write \<longrightarrow> r = Inr (length ?promoted)"
    unfolding r by (simp add: consolidate_components)
  have idle: "\<not> compression_due ?st \<longrightarrow> ?promoted = [] \<and> shortTerm m' = ?st"
    unfolding m' by (simp add: consolidate_components compress_not_due)
  have count: "compression_due ?st \<longrightarrow> length ?promoted = length (filter promotable (st_entries ?st))"
    by (simp add: length_promoted)
  have moved: "e \<in> set ?promoted \<and> e \<notin> set (st_entries (shortTerm m')) \<and>
       entry_id e \<notin> entry_id ` set (st_entries (shortTerm m')) \<and>
       (distinct (map entry_id (st_entries ?st)) \<and>
        \<not> prunable (pruneThreshold (longTerm m)) now_prune e \<longrightarrow>
          map_of (lt_entries (longTerm m')) (entry_id e) = Some (e\<lparr>source := Tier_long_term\<rparr>))"
    if due: "compression_due ?st" and e: "e \<in> set (st_entries ?st)" and p: "promotable e"
  proof -
    have in_promoted: "e \<in> set ?promoted"
      using e p by (simp add: compress_due [OF due])
    have gone: "entry_id e \<notin> entry_id ` set (st_entries (shortTerm m'))"
    proof -
      have "entry_id e \<in> entry_id ` {x \<in> set (st_entries ?st). promotable x}"
        using e p by blast
      then show ?thesis
        unfolding m' by (auto simp: consolidate_components compress_due [OF due])
    qed
    then have gone': "e \<notin> set (st_entries (shortTerm m'))" by blast
    have kept: "map_of (lt_entries (longTerm m')) (entry_id e) = Some (e\<lparr>source := Tier_long_term\<rparr>)"
      if d: "distinct (map entry_id (st_entries ?st))"
        and np: "\<not> prunable (pruneThreshold (longTerm m)) now_prune e"
    proof -
      have "distinct (map entry_id (sort_key (\<lambda>e. - calculateRelevance e now) (st_entries ?st)))"
        using d by (simp add: distinct_map_sort_key)
      then have "distinct (map entry_id ?promoted)"
        by (simp add: compress_due [OF due] distinct_map_filter)
      then have "map_of (lt_entries (promote_all (longTerm m) ?promoted)) (entry_id e) =
                 Some (e\<lparr>source := Tier_long_term\<rparr>)"
        using in_promoted by (rule map_of_promote_all)
      moreover have "\<not> prunable (pruneThreshold (longTerm m)) now_prune (e\<lparr>source := Tier_long_term\<rparr>)"
        using np by (simp add: prunable_promoted)
      ultimately show ?thesis
        unfolding m' by (simp add: consolidate_components map_of_filter_keep)
    qed
    from in_promoted gone gone' kept show ?thesis by blast
  qed
  from steps fl ret idle count moved show ?thesis by blast
qed


lemma idle_not_due: "\<not> compression_due (shortTerm idle_manager)"
  by (simp add: idle_manager_eq compression_due_def)

lemma worthy_due: "compression_due (shortTerm worthy_manager)"
  by (simp add: worthy_manager_eq compression_due_def)

lemma read_entry_promotable: "promotable (read_entry 3) \<and> promotable (read_entry 4)"
  by (simp add: promotable_def read_entry_def)

lemma read_entry_relevance_fresh: "calculateRelevance (read_entry 4) 0 = 1"
  by (simp add: calculateRelevance_def read_entry_def createMemoryEntry_def)

lemma sqrt_ten_thousandth: "sqrt (1 / 10000) = 1 / 100"
  by (rule real_sqrt_unique) (simp_all add: power2_eq_square)

lemma read_entry_relevance_aged: "calculateRelevance (read_entry 4) 3455913600000 = 1 / 200"
  using sqrt_ten_thousandth
  by (simp add: calculateRelevance_def read_entry_def createMemoryEntry_def)

text \<open>
  C2 says that after \<open>consolidate\<close> every working-set entry with \<open>accessCount \<ge> 3\<close> is in the
  long-term store and no longer in the working set. Counterexample: one entry read three times
  in a working set with \<open>maxSize = 10\<close>; the compression threshold is not reached,
  \<open>consolidate\<close> returns 0, the entry is still in the working set and the long-term store has
  no entry with its id.
\<close>

theorem consolidate_leaves_accessed_entry:
  "read_entry 3 \<in> set (st_entries (shortTerm idle_manager)) \<and>
   accessCount (read_entry 3) \<ge> 3 \<and>
   fst (consolidate idle_manager 0 0 NoFile True) = Inr 0 \<and>
   read_entry 3 \<in> set (st_entries (shortTerm (fst (snd (consolidate idle_manager 0 0 NoFile True))))) \<and>
   map_of (lt_entries (longTerm (fst (snd (consolidate idle_manager 0 0 NoFile True))))) ''W1'' = None"
  using idle_not_due
  by (simp add: consolidate_components compress_not_due promote_all_def)
     (simp add: idle_manager_eq read_entry_def new_LongTermMemory_def)

lemma worthy_compress:
  "compress (shortTerm worthy_manager) now =
     ([read_entry 4], \<lparr>st_entries = [], maxSize = 1, compressionThreshold = 8 / 10\<rparr>)"
  using read_entry_promotable
  by (simp add: compress_def worthy_manager_eq Let_def)

lemma worthy_promoted:
  "lt_entries (promote_all (longTerm worthy_manager) [read_entry 4]) =
     [(''W1'', (read_entry 4)\<lparr>source := Tier_long_term\<rparr>)]"
  by (simp add: promote_all_def lt_promote_def Let_def worthy_manager_eq new_LongTermMemory_def
      read_entry_def createMemoryEntry_def)

text \<open>
  The second way in which a promotable entry does not end in the long-term store: it is
  promoted in step 1 and pruned in step 3. Here the entry was last read 39999 days before the
  prune; its relevance is 0.005.
\<close>

lemma promoted_then_pruned:
  "fst (consolidate worthy_manager 0 3455913600000 NoFile True) = Inr 1 \<and>
   st_entries (shortTerm (fst (snd (consolidate worthy_manager 0 3455913600000 NoFile True)))) = [] \<and>
   lt_entries (longTerm (fst (snd (consolidate worthy_manager 0 3455913600000 NoFile True)))) = []"
proof -
  have "accessCount (read_entry 4) > 0" by (simp add: read_entry_def)
  then have "prunable (1 / 100) 3455913600000 (read_entry 4)"
    by (simp add: prunable_def read_entry_relevance_aged)
  then have "prunable (pruneThreshold (longTerm worthy_manager)) 3455913600000
          ((read_entry 4)\<lparr>source := Tier_long_term\<rparr>)"
    by (simp add: prunable_promoted worthy_manager_eq new_LongTermMemory_def)
  then show ?thesis
    by (simp add: consolidate_components worthy_compress worthy_promoted)
qed

text \<open>
  Witness for C2 as amended: the working set is full, its entry was read four times; it is
  promoted, \<open>consolidate\<close> returns 1, and the long-term store holds the entry under \<open>W1\<close>.
\<close>

theorem consolidate_protocol_witness:
  "consolidate worthy_manager 0 0 NoFile True =
     (fst (consolidate worthy_manager 0 0 NoFile True),
      fst (snd (consolidate worthy_manager 0 0 NoFile True)),
      snd (snd (consolidate worthy_manager 0 0 NoFile True))) \<and>
   compression_due (shortTerm worthy_manager) \<and>
   read_entry 4 \<in> set (st_entries (shortTerm worthy_manager)) \<and>
   promotable (read_entry 4) \<and>
   distinct (map entry_id (st_entries (shortTerm worthy_manager))) \<and>
   \<not> prunable (pruneThreshold (longTerm worthy_manager)) 0 (read_entry 4) \<and>
   fst (consolidate worthy_manager 0 0 NoFile True) = Inr 1 \<and>
   read_entry 4 \<notin> set (st_entries (shortTerm (fst (snd (consolidate worthy_manager 0 0 NoFile True))))) \<and>
   map_of (lt_entries (longTerm (fst (snd (consolidate worthy_manager 0 0 NoFile True))))) ''W1'' =
     Some ((read_entry 4)\<lparr>source := Tier_long_term\<rparr>) \<and>
   fl_size (fleeting (fst (snd (consolidate worthy_manager 0 0 NoFile True)))) = 0"
proof -
  have p: "consolidate worthy_manager 0 0 NoFile True =
     (fst (consolidate worthy_manager 0 0 NoFile True),
      fst (snd (consolidate worthy_manager 0 0 NoFile True)),
      snd (snd (consolidate worthy_manager 0 0 NoFile True)))"
    by simp
  have due: "compression_due (shortTerm worthy_manager)" by (rule worthy_due)
  have e: "read_entry 4 \<in> set (st_entries (shortTerm worthy_manager))"
    and d: "distinct (map entry_id (st_entries (shortTerm worthy_manager)))"
    by (simp_all add: worthy_manager_eq)
  have pr: "promotable (read_entry 4)" using read_entry_promotable by simp
  have np: "\<not> prunable (pruneThreshold (longTerm worthy_manager)) 0 (read_entry 4)"
    using read_entry_relevance_fresh
    by (simp add: prunable_def worthy_manager_eq new_LongTermMemory_def)
  have id: "entry_id (read_entry 4) = ''W1''"
    by (simp add: read_entry_def createMemoryEntry_def)
  have n: "length (filter promotable (st_entries (shortTerm worthy_manager))) = 1"
    using pr by (simp add: worthy_manager_eq)
  note T = consolidate_protocol [OF p, of "read_entry 4"]
  have ret: "fst (consolidate worthy_manager 0 0 NoFile True) =
             Inr (length (fst (compress (shortTerm worthy_manager) 0)))"
    using T by blast
  have cnt: "length (fst (compress (shortTerm worthy_manager) 0)) =
             length (filter promotable (st_entries (shortTerm worthy_manager)))"
    using T due by blast
  have gone: "read_entry 4 \<notin> set (st_entries (shortTerm (fst (snd (consolidate worthy_manager 0 0 NoFile True)))))"
    using T due e pr by blast
  have kept: "map_of (lt_entries (longTerm (fst (snd (consolidate worthy_manager 0 0 NoFile True)))))
                (entry_id (read_entry 4)) = Some ((read_entry 4)\<lparr>source := Tier_long_term\<rparr>)"
    using T due e pr d np by blast
  have fl: "fl_size (fleeting (fst (snd (consolidate worthy_manager 0 0 NoFile True)))) = 0"
    using T by blast
  have ret': "fst (consolidate worthy_manager 0 0 NoFile True) = Inr 1"
    by (simp only: ret cnt n)
  have kept': "map_of (lt_entries (longTerm (fst (snd (consolidate worthy_manager 0 0 NoFile True))))) ''W1'' =
     Some ((read_entry 4)\<lparr>source := Tier_long_term\<rparr>)"
    using kept by (simp only: id)
  from p due e pr d np ret' gone kept' fl show ?thesis by blast
qed

subsection \<open>The round trip of the graph for all other nodes\<close>

text \<open>
  For a graph with distinct keys, as every graph built by the operations of the class is, the
  round trip through \<open>toJSON\<close> and \<open>fromJSON\<close> keeps the weight of every link that leaves a
  node whose id is not \<^verbatim>\<open>__proto__\<close>.
\<close>

lemma map_of_foldl_Map_set:
  "distinct (map fst xs) \<Longrightarrow>
   map_of (foldl (\<lambda>m kv. Map_set (fst kv) (h (snd kv)) m) acc xs) k =
     (case map_of xs k of None \<Rightarrow> map_of acc k | Some v \<Rightarrow> Some (h v))"
proof (induction xs arbitrary: acc)
  case Nil
  then show ?case by simp
next
  case (Cons x xs)
  then have "map_of xs (fst x) = None"
    by (cases x) (auto simp: map_of_eq_None_iff)
  with Cons show ?case
    by (cases x) (auto simp: map_of_Map_set split: option.splits)
qed

lemma distinct_foldl_Map_set:
  "distinct (map fst acc) \<Longrightarrow>
   distinct (map fst (foldl (\<lambda>m kv. Map_set (fst kv) (h (snd kv)) m) acc xs))"
  by (induction xs arbitrary: acc) (simp_all add: distinct_Map_set)

lemma map_of_from_entries: "distinct (map fst kvs) \<Longrightarrow> map_of (from_entries kvs) k = map_of kvs k"
  using map_of_foldl_Map_set [of kvs "\<lambda>v. v" "[]" k]
  by (simp add: from_entries_def split: option.splits)

lemma distinct_from_entries: "distinct (map fst (from_entries kvs))"
  using distinct_foldl_Map_set [of "[]" "\<lambda>v. v" kvs] by (simp add: from_entries_def)

lemma toJSON_filter:
  "foldl (\<lambda>result node. obj_assign (fst node) (h (snd node)) result) acc xs =
   foldl (\<lambda>m kv. Map_set (fst kv) (h (snd kv)) m) acc (filter (\<lambda>node. fst node \<noteq> ''__proto__'') xs)"
  by (induction xs arbitrary: acc) (simp_all add: obj_assign_def)

lemma map_of_toJSON:
  "distinct (map fst (associations g)) \<Longrightarrow>
   map_of (toJSON g) a =
     (if a = ''__proto__'' then None else map_option from_entries (map_of (associations g) a))"
proof -
  assume d: "distinct (map fst (associations g))"
  let ?xs = "filter (\<lambda>node. fst node \<noteq> ''__proto__'') (associations g)"
  have dx: "distinct (map fst ?xs)" using d by (simp add: distinct_map_filter)
  have "map_of (filter (\<lambda>node. fst node \<noteq> ''__proto__'') ys) a =
          (if a = ''__proto__'' then None else map_of ys a)"
    for ys :: "(string \<times> (string \<times> real) list) list"
    by (induction ys) auto
  then have m: "map_of ?xs a = (if a = ''__proto__'' then None else map_of (associations g) a)" .
  show ?thesis
    unfolding toJSON_def toJSON_filter
    by (simp add: map_of_foldl_Map_set [OF dx] m split: option.splits)
qed

lemma distinct_toJSON: "distinct (map fst (toJSON g))"
  unfolding toJSON_def toJSON_filter by (rule distinct_foldl_Map_set) simp

lemma map_of_fromJSON:
  "distinct (map fst data) \<Longrightarrow>
   map_of (associations (fromJSON data dr ms)) a = map_option from_entries (map_of data a)"
  by (simp add: fromJSON_def new_HebbianNetwork_def map_of_foldl_Map_set split: option.splits)

lemma roundtrip_other_nodes:
  assumes "wf_links (associations g)" and "a \<noteq> ''__proto__''"
  shows "getStrength (fromJSON (toJSON g) dr ms) a b = getStrength g a b"
proof -
  have d: "distinct (map fst (associations g))" using assms(1) by (simp add: wf_links_def)
  have "link (associations (fromJSON (toJSON g) dr ms)) a b = link (associations g) a b"
  proof (cases "map_of (associations g) a")
    case None
    then show ?thesis
      using assms(2) by (simp add: link_def map_of_fromJSON [OF distinct_toJSON] map_of_toJSON [OF d])
  next
    case (Some links)
    then have "(a, links) \<in> set (associations g)" by (rule map_of_SomeD)
    then have dl: "distinct (map fst links)"
      using assms(1) by (auto simp: wf_links_def list_all_iff)
    have "map_of (from_entries (from_entries links)) b = map_of links b"
      by (simp add: map_of_from_entries distinct_from_entries dl)
    then show ?thesis
      using assms(2) Some
      by (simp add: link_def map_of_fromJSON [OF distinct_toJSON] map_of_toJSON [OF d])
  qed
  then show ?thesis by (simp add: getStrength_def)
qed

subsection \<open>Reads and the access bookkeeping\<close>

text \<open>
  \<open>get\<close> returns the bumped entry in all three stores, and so does the search of the long-term
  store; the searches of the working set and of the fleeting store return stored entries as they
  are.
\<close>

lemma st_search_returns_stored: "set (st_search st query limit) \<subseteq> set (st_entries st)"
proof -
  have "set (take limit xs) \<subseteq> set xs" for xs :: "(MemoryEntry \<times> real) list"
    by (rule set_take_subset)
  then show ?thesis
    by (fastforce simp: st_search_def Let_def dest!: in_set_takeD)
qed

lemma fl_search_returns_stored: "set (fl_search fm query) \<subseteq> snd ` set (fl_store fm)"
  by (auto simp: fl_search_def Let_def)

lemma get_counts_access:
  "map_of (fl_store fm) i = Some e \<Longrightarrow> fst (fl_get fm i now) = Some (bump now e)"
  "find (\<lambda>x. entry_id x = i) (st_entries st) = Some e \<Longrightarrow> fst (st_get st i now) = Some (bump now e)"
  "map_of (lt_entries lt) i = Some e \<Longrightarrow> fst (lt_get lt i now) = Some (bump now e)"
  by (simp_all add: fl_get_def st_get_def lt_get_def)

lemma lt_search_counts_access:
  "e \<in> set (fst (lt_search lt query limit now)) \<Longrightarrow>
   \<exists>p \<in> set (lt_entries lt). e = bump now (snd p)"
  by (auto simp: lt_search_def Let_def dest!: in_set_takeD)

end
